theory Spec2Isabelle
  imports Main "HOL-Library.Word"
begin

unbundle bit_operations_syntax

section \<open>Data of journald-syslog.c\<close>

text \<open>
  A value of type \<^typ>\<open>string\<close> stands for a C string: the bytes before the terminating
  NUL, so reaching the end of the list is reading the NUL. An optional pointer argument
  (\<open>ucred\<close>, \<open>tv\<close>, \<open>identifier\<close>) is an \<open>option\<close>, \<open>None\<close> being the null pointer.
\<close>

type_synonym usec_t = "64 word"

record ucred =
  pid :: int
  uid :: "32 word"
  gid :: "32 word"

record timeval =
  tv_sec :: int
  tv_usec :: int

record tm =
  tm_sec :: int
  tm_min :: int
  tm_hour :: int
  tm_mday :: int
  tm_mon :: int
  tm_year :: int
  tm_wday :: int
  tm_yday :: int
  tm_isdst :: int
  tm_gmtoff :: int

text \<open>
  \<open>SyslogMessage\<close> is declared in journald-syslog.h; its fields are the ones the functions
  below read and write. The three scratch arrays \<open>_priver\<close>, \<open>_timestamp\<close> and \<open>_procid\<close>
  are the fields \<open>buf_priver\<close>, \<open>buf_timestamp\<close> and \<open>buf_procid\<close>.
\<close>

record SyslogMessage =
  priority :: int
  timestamp :: tm
  hostname :: string
  appname :: string
  msgid :: string
  message :: string
  procid :: int
  buf_priver :: string
  buf_timestamp :: string
  buf_procid :: string

record sockaddr_in =
  sin_family :: int
  sin_port :: "16 word"
  sin_addr :: "32 word"

text \<open>
  The fields of \<open>Server\<close> (journald-server.h) that this file touches. The counter
  \<open>n_forward_syslog_missed\<close> is printed with \<open>%u\<close>, an unsigned int; \<open>usec_t\<close> is a
  64-bit unsigned count of microseconds.
\<close>

record Server =
  syslog_fd :: int
  remote_syslog_fd :: int
  remote_syslog_dest :: sockaddr_in
  n_forward_syslog_missed :: "32 word"
  last_warn_forward_syslog_missed :: usec_t
  max_level_syslog :: int
  forward_to_syslog :: bool
  forward_to_remote_syslog :: bool
  forward_to_kmsg :: bool
  forward_to_console :: bool
  forward_to_wall :: bool
  hostname_field :: "string option"

text \<open>
  Everything the functions do to the outside is an event appended to a trace: the
  datagrams handed to \<open>sendmsg\<close>, the calls of \<open>socket\<close>, the log lines, the driver
  message of the loss warning, and the calls of the collaborators that live in other
  files (kmsg, console and wall forwarding, the journal dispatch).
\<close>

datatype event =
    SendSyslog "string list" "ucred option"
  | SendRemote int sockaddr_in "string list"
  | OpenSocket
  | LogDebug int
  | LogWarning string
  | LogError string
  | DriverMessage "32 word"
  | ForwardKmsg int "string option" string "ucred option"
  | ForwardConsole int "string option" string "ucred option"
  | ForwardWall int "string option" string "ucred option"
  | Dispatch "string list" "ucred option" "timeval option" "string option" int

datatype error = AssertionFailed | ReadBeforeBuffer

text \<open>
  What the functions obtain from the operating system, from libc and from other files
  of the daemon. \<open>sendmsg_syslog i\<close> is the outcome of the \<open>i\<close>-th \<open>sendmsg\<close> on the local
  relay socket (\<open>None\<close>: the call returned a value \<open>\<ge> 0\<close>; \<open>Some e\<close>: it returned \<open>-1\<close> with
  \<open>errno = e\<close>); \<open>socket_inet i\<close> is the value of the \<open>i\<close>-th \<open>socket\<close> call; \<open>strftime\<close> gives
  the return value and the buffer contents; \<open>localtime_r\<close> and \<open>get_process_comm\<close> are
  \<open>None\<close> when they fail; \<open>parse_pid\<close> is \<open>None\<close> when it returns an error and leaves its
  output untouched; \<open>syslog_parse_priority\<close>, given the string at the cursor and the
  priority so far, gives the number of bytes it moves the cursor forward and the priority
  it leaves. \<open>whitespace\<close> is the macro \<open>WHITESPACE\<close>, \<open>procid_size\<close> is
  \<open>sizeof(sm->_procid)\<close>, \<open>n_iovec_meta_fields\<close> is \<open>N_IOVEC_META_FIELDS\<close>, all three declared
  in headers; \<open>stack_sm\<close> is the content of the uninitialised \<open>SyslogMessage sm\<close> on the
  stack.
\<close>

record env =
  getpid :: int
  sendmsg_syslog :: "nat \<Rightarrow> int option"
  socket_inet :: "nat \<Rightarrow> int"
  now_realtime :: usec_t
  now_monotonic :: usec_t
  localtime_r :: "int \<Rightarrow> tm option"
  strftime :: "tm \<Rightarrow> nat \<times> string"
  get_process_comm :: "int \<Rightarrow> string option"
  syslog_parse_priority :: "string \<Rightarrow> int \<Rightarrow> nat \<times> int"
  parse_pid :: "string \<Rightarrow> int option"
  whitespace :: string
  procid_size :: nat
  n_iovec_meta_fields :: nat
  stack_sm :: SyslogMessage

subsection \<open>Constants declared in headers\<close>

text \<open>
  The \<open>errno\<close> values, \<open>AF_INET\<close>, \<open>INADDR_NONE\<close> and the \<open>LOG_\<close> macros are those of the Linux
  system headers.
\<close>

definition EPERM :: int where "EPERM = 1"
definition ENOENT :: int where "ENOENT = 2"
definition ESRCH :: int where "ESRCH = 3"
definition EAGAIN :: int where "EAGAIN = 11"

definition AF_INET :: int where "AF_INET = 2"
definition INADDR_NONE :: "32 word" where "INADDR_NONE = 0xffffffff"

text \<open>
  Modelled from the spec: \<open>USEC_PER_SEC\<close> is declared in a header outside the sources; the
  spec gives the window of the loss warning, \<open>30 * USEC_PER_SEC\<close>, as 30 seconds, so it is
  the number of microseconds in a second.
\<close>

definition USEC_PER_SEC :: usec_t where "USEC_PER_SEC = 1000000"

definition WARN_FORWARD_SYSLOG_MISSED_USEC :: usec_t where
  "WARN_FORWARD_SYSLOG_MISSED_USEC = 30 * USEC_PER_SEC"

definition LOG_PRIMASK :: int where "LOG_PRIMASK = 7"

definition LOG_PRI :: "int \<Rightarrow> int" where
  "LOG_PRI p = p AND LOG_PRIMASK"


text \<open>
  Modelled from the spec: the macro \<open>WHITESPACE\<close> is declared in a header outside the
  sources; the spec speaks of whitespace-delimited tokens, taken here as blank, tab,
  newline and carriage return. \<open>syslog_parse_identifier\<close> below takes the whitespace
  characters as a parameter; this constant is the one the examples use.
\<close>

definition WHITESPACE :: string where
  "WHITESPACE = [CHR '' '', CHR 0x09, CHR 0x0A, CHR 0x0D]"

text \<open>
  \<open>isempty\<close>, of a header outside the sources as well: the pointer is null or the string
  is empty.
\<close>

definition isempty :: "string option \<Rightarrow> bool" where
  "isempty p = (case p of None \<Rightarrow> True | Some x \<Rightarrow> x = [])"

subsection \<open>Formatting with \<open>%i\<close>\<close>

text \<open>The decimal digits of a number, most significant first; \<open>0\<close> prints as \<open>"0"\<close>.\<close>

fun digits :: "nat \<Rightarrow> string" where
  "digits n =
     (if n div 10 = 0 then [] else digits (n div 10)) @ [''0123456789'' ! (n mod 10)]"

declare digits.simps [simp del]

definition format_i :: "int \<Rightarrow> string" where
  "format_i i = (if 0 \<le> i then digits (nat i) else CHR ''-'' # digits (nat (- i)))"

section \<open>The RFC5424 message synthesizer\<close>

definition syslog_init_message :: "SyslogMessage \<Rightarrow> SyslogMessage" where
  "syslog_init_message sm =
     sm\<lparr>priority := 14, procid := 0, hostname := ''-'', appname := ''-'', msgid := ''-'',
        message := ''-''\<rparr>"

text \<open>
  \<open>syslog_fill_iovec\<close> returns the C return value, the message record as the call leaves
  it, and the entries \<open>PRIVER .. MSG\<close> of the caller's array (empty when nothing was
  written). On success \<open>*n_iovec\<close> is the return value. \<open>sprintf\<close> into \<open>_priver\<close> is not
  bounded by the source and is not bounded here; \<open>snprintf\<close> into \<open>_procid\<close> keeps at most
  \<open>sizeof(_procid) - 1\<close> characters.
\<close>

definition syslog_fill_iovec ::
  "env \<Rightarrow> SyslogMessage \<Rightarrow> nat \<Rightarrow> int \<times> SyslogMessage \<times> string list" where
  "syslog_fill_iovec e sm n_iovec =
     (if n_iovec < 10 then (- 1, sm, [])
      else
        let sm1 = (if drop_bit 3 (priority sm) > 23
                   then sm\<lparr>priority := (priority sm AND 7) + push_bit 3 23\<rparr> else sm);
            sm2 = sm1\<lparr>buf_priver := ''<'' @ format_i (priority sm1) @ ''>1 ''\<rparr>;
            r = fst (strftime e (timestamp sm2));
            sm3 = sm2\<lparr>buf_timestamp := snd (strftime e (timestamp sm2))\<rparr>;
            iov_timestamp = (if r \<le> 0 then ''- '' else buf_timestamp sm3);
            offset = (if take 10 (hostname sm3) = ''_HOSTNAME='' then 10 else 0);
            sm4 = sm3\<lparr>buf_procid :=
                    (if procid sm3 \<noteq> 0
                     then take (procid_size e - 1) (''['' @ format_i (procid sm3) @ '']: '')
                     else ''- '')\<rparr>
        in (10, sm4,
            [buf_priver sm4, iov_timestamp, drop offset (hostname sm4), '' '',
             appname sm4, '' '', buf_procid sm4, msgid sm4, '' - '', message sm4]))"

section \<open>The BSD header parser\<close>

datatype date_class = LETTER | SPACE | NUMBER | SPACE_OR_NUMBER | COLON

definition sequence :: "date_class list" where
  "sequence =
     [LETTER, LETTER, LETTER,
      SPACE,
      SPACE_OR_NUMBER, NUMBER,
      SPACE,
      SPACE_OR_NUMBER, NUMBER,
      COLON,
      SPACE_OR_NUMBER, NUMBER,
      COLON,
      SPACE_OR_NUMBER, NUMBER,
      SPACE]"

text \<open>
  One arm of the \<open>switch\<close>: \<open>True\<close> when the arm ends in \<open>break\<close>, \<open>False\<close> when it returns.
  The comparisons are on character codes; a byte that is none of the expected characters
  fails them whether \<open>char\<close> is signed or not.
\<close>

fun class_ok :: "date_class \<Rightarrow> char \<Rightarrow> bool" where
  "class_ok SPACE c = (c = CHR '' '')"
| "class_ok SPACE_OR_NUMBER c =
     (c = CHR '' '' \<or> \<not> (of_char c < (of_char CHR ''0'' :: nat) \<or> of_char c > (of_char CHR ''9'' :: nat)))"
| "class_ok NUMBER c =
     (\<not> (of_char c < (of_char CHR ''0'' :: nat) \<or> of_char c > (of_char CHR ''9'' :: nat)))"
| "class_ok LETTER c =
     (\<not> (\<not> (of_char c \<ge> (of_char CHR ''A'' :: nat) \<and> of_char c \<le> (of_char CHR ''Z'' :: nat)) \<and>
         \<not> (of_char c \<ge> (of_char CHR ''a'' :: nat) \<and> of_char c \<le> (of_char CHR ''z'' :: nat))))"
| "class_ok COLON c = (c = CHR '':'')"

text \<open>
  The \<open>for\<close> loop of \<open>syslog_skip_date\<close> over the remaining classes, \<open>p\<close> being the rest of
  the string at the cursor: \<open>None\<close> when the loop returns early, the final cursor otherwise.
\<close>

fun skip_date_loop :: "date_class list \<Rightarrow> string \<Rightarrow> string option" where
  "skip_date_loop [] p = Some p"
| "skip_date_loop (c # cs) [] = None"
| "skip_date_loop (c # cs) (x # p) = (if class_ok c x then skip_date_loop cs p else None)"

definition syslog_skip_date :: "string \<Rightarrow> string" where
  "syslog_skip_date buf = (case skip_date_loop sequence buf of None \<Rightarrow> buf | Some p \<Rightarrow> p)"

definition strspn :: "string \<Rightarrow> string \<Rightarrow> nat" where
  "strspn p accept = length (takeWhile (\<lambda>c. c \<in> set accept) p)"

definition strcspn :: "string \<Rightarrow> string \<Rightarrow> nat" where
  "strcspn p reject = length (takeWhile (\<lambda>c. c \<notin> set reject) p)"

definition strndup :: "string \<Rightarrow> nat \<Rightarrow> string" where
  "strndup p n = take n p"

text \<open>
  The backward scan for \<open>'['\<close>, started at index \<open>k\<close>: the index where it stops on a
  bracket, or \<open>None\<close> when it leaves the loop at \<open>k = 0\<close> without one.
\<close>

primrec scan_bracket :: "string \<Rightarrow> nat \<Rightarrow> nat option" where
  "scan_bracket p 0 = (if p ! 0 = CHR ''['' then Some 0 else None)"
| "scan_bracket p (Suc k) = (if p ! Suc k = CHR ''['' then Some (Suc k) else scan_bracket p k)"

text \<open>
  \<open>syslog_parse_identifier ws pre buf identifier pid\<close> returns the number \<open>e\<close> the C
  function returns and the values of \<open>*buf\<close>, \<open>*identifier\<close> and \<open>*pid\<close> after the call; \<open>ws\<close>
  is the macro \<open>WHITESPACE\<close>, \<open>buf\<close> is the string at the cursor \<open>*buf\<close>, and \<open>pre\<close> holds the
  bytes of the same buffer in front of the cursor, in memory order (empty when the cursor
  is at the start of the buffer). Allocation by \<open>strndup\<close> is taken to succeed.

  For the one-character token \<open>":"\<close> the source evaluates \<open>p[l-1]\<close> with \<open>l = 0\<close>: the index
  wraps around and the read lands on the byte in front of \<open>p\<close>, the last skipped
  whitespace character or else the last byte of \<open>pre\<close>. When there is no such byte the read
  leaves the buffer, and the result is \<open>Inl ReadBeforeBuffer\<close>. When that byte is \<open>']'\<close> the
  loop starts at \<open>k = l - 1\<close>, in front of \<open>p\<close>, and walks backwards through the buffer: it
  stops at the first \<open>'['\<close> it meets, \<open>i\<close> being its index in the bytes in front of \<open>p\<close> and
  \<open>j\<close> its distance from \<open>p\<close>, so that \<open>k = 2^64 - j\<close> in a 64-bit \<open>size_t\<close>, the pid is the
  \<open>l - k - 2 = j - 2\<close> bytes behind the bracket and the identifier is \<open>strndup(p, k)\<close>; with no
  \<open>'['\<close> in front of \<open>p\<close> the loop leaves the buffer.
\<close>

definition syslog_parse_identifier ::
  "string \<Rightarrow> string \<Rightarrow> string \<Rightarrow> string option \<Rightarrow> string option \<Rightarrow>
     error + (nat \<times> string \<times> string option \<times> string option)" where
  "syslog_parse_identifier ws pre buf identifier pid_out =
     (let skipped = take (strspn buf ws) buf;
          p = drop (strspn buf ws) buf;
          l = strcspn p ws
      in if l \<le> 0 \<or> p ! (l - 1) \<noteq> CHR '':'' then Inr (0, buf, identifier, pid_out)
         else
           let e = l;
               l1 = l - 1;
               e1 = e + strspn (drop e p) ws
           in if l1 = 0
              then
                (let front = pre @ skipped in
                 if front = [] then Inl ReadBeforeBuffer
                 else if last front \<noteq> CHR '']''
                 then Inr (e1, drop e1 p, Some (strndup p l1), pid_out)
                 else
                   (case scan_bracket front (length front - 1) of
                      None \<Rightarrow> Inl ReadBeforeBuffer
                    | Some i \<Rightarrow>
                        let j = length front - i in
                        Inr (e1, drop e1 p, Some (strndup p (2 ^ 64 - j)),
                             Some (strndup (drop (i + 1) front) (j - 2)))))
              else
                let found = (if p ! (l1 - 1) = CHR '']'' then scan_bracket p (l1 - 1) else None);
                    pid1 = (case found of None \<Rightarrow> pid_out
                            | Some k \<Rightarrow> Some (strndup (drop (k + 1) p) (l1 - k - 2)));
                    l2 = (case found of None \<Rightarrow> l1 | Some k \<Rightarrow> k)
                in Inr (e1, drop e1 p, Some (strndup p l2), pid1))"

section \<open>The local relay forwarder\<close>

fun is_syslog_send :: "event \<Rightarrow> bool" where
  "is_syslog_send (SendSyslog iov c) = True"
| "is_syslog_send ev = False"

definition n_sendmsg :: "event list \<Rightarrow> nat" where
  "n_sendmsg tr = length (filter is_syslog_send tr)"

text \<open>The last statement of \<open>forward_syslog_iovec\<close>, reached with \<open>errno\<close> set.\<close>

definition log_unless_enoent :: "int \<Rightarrow> event list \<Rightarrow> event list" where
  "log_unless_enoent errno tr = (if errno \<noteq> ENOENT then tr @ [LogDebug errno] else tr)"

text \<open>
  \<open>iovec\<close> holds the \<open>n_iovec\<close> entries of the array; the parameter \<open>tv\<close> is not used by the
  source and is left out.
\<close>

definition forward_syslog_iovec ::
  "env \<Rightarrow> Server \<Rightarrow> event list \<Rightarrow> string list \<Rightarrow> ucred option \<Rightarrow>
     error + (Server \<times> event list)" where
  "forward_syslog_iovec e s tr iovec cred =
     (if \<not> length iovec > 0 then Inl AssertionFailed
      else
        let tr1 = tr @ [SendSyslog iovec cred] in
        case sendmsg_syslog e (n_sendmsg tr) of
          None \<Rightarrow> Inr (s, tr1)
        | Some errno \<Rightarrow>
            if errno = EAGAIN
            then Inr (s\<lparr>n_forward_syslog_missed := n_forward_syslog_missed s + 1\<rparr>, tr1)
            else
              (case cred of
                 Some c \<Rightarrow>
                   if errno = ESRCH \<or> errno = EPERM
                   then
                     let u = c\<lparr>pid := getpid e\<rparr>;
                         tr2 = tr1 @ [SendSyslog iovec (Some u)]
                     in (case sendmsg_syslog e (n_sendmsg tr1) of
                           None \<Rightarrow> Inr (s, tr2)
                         | Some errno2 \<Rightarrow>
                             if errno2 = EAGAIN
                             then Inr (s\<lparr>n_forward_syslog_missed :=
                                          n_forward_syslog_missed s + 1\<rparr>, tr2)
                             else Inr (s, log_unless_enoent errno2 tr2))
                   else Inr (s, log_unless_enoent errno tr1)
               | None \<Rightarrow> Inr (s, log_unless_enoent errno tr1)))"

definition forward_syslog_raw ::
  "env \<Rightarrow> Server \<Rightarrow> event list \<Rightarrow> int \<Rightarrow> string \<Rightarrow> ucred option \<Rightarrow>
     error + (Server \<times> event list)" where
  "forward_syslog_raw e s tr pri buffer cred =
     (if LOG_PRI pri > max_level_syslog s then Inr (s, tr)
      else forward_syslog_iovec e s tr [buffer] cred)"

section \<open>The remote forwarder\<close>

fun is_socket_call :: "event \<Rightarrow> bool" where
  "is_socket_call OpenSocket = True"
| "is_socket_call ev = False"

definition n_socket :: "event list \<Rightarrow> nat" where
  "n_socket tr = length (filter is_socket_call tr)"

definition maybe_open_remote_syslog ::
  "env \<Rightarrow> Server \<Rightarrow> event list \<Rightarrow> int \<times> Server \<times> event list" where
  "maybe_open_remote_syslog e s tr =
     (if remote_syslog_fd s > 0 then (remote_syslog_fd s, s, tr)
      else if sin_addr (remote_syslog_dest s) = INADDR_NONE then (0, s, tr)
      else
        let tr1 = tr @ [LogWarning ''remote syslog forwarding target configured: %s''] in
        if sin_family (remote_syslog_dest s) \<noteq> AF_INET
        then (0, s, tr1 @ [LogWarning
               ''non AF_INET target for remote syslog forwarding configured. ignoring.''])
        else
          let fd = socket_inet e (n_socket tr1);
              tr2 = tr1 @ [OpenSocket]
          in if fd < 0
             then (0, s, tr2 @ [LogError ''socket() failed for remote syslog forwarding: %m''])
             else (fd, s\<lparr>remote_syslog_fd := fd\<rparr>, tr2))"

definition forward_remote_syslog_iovec ::
  "env \<Rightarrow> Server \<Rightarrow> event list \<Rightarrow> string list \<Rightarrow> Server \<times> event list" where
  "forward_remote_syslog_iovec e s tr iovec =
     (case maybe_open_remote_syslog e s tr of
        (fd, s1, tr1) \<Rightarrow>
          if fd = 0 then (s1, tr1)
          else (s1, tr1 @ [SendRemote fd (remote_syslog_dest s1) iovec]))"

section \<open>Forwarding one message\<close>

definition forward_time :: "env \<Rightarrow> timeval option \<Rightarrow> int" where
  "forward_time e tv =
     (case tv of Some v \<Rightarrow> tv_sec v | None \<Rightarrow> uint (now_realtime e div USEC_PER_SEC))"

text \<open>
  The two sends that end \<open>server_forward_syslog\<close> and \<open>server_process_syslog_message\<close>.
\<close>

definition forward_both ::
  "env \<Rightarrow> Server \<Rightarrow> event list \<Rightarrow> string list \<Rightarrow> ucred option \<Rightarrow>
     error + (Server \<times> event list)" where
  "forward_both e s tr iovec cred =
     (case (if forward_to_syslog s then forward_syslog_iovec e s tr iovec cred
            else Inr (s, tr)) of
        Inl err \<Rightarrow> Inl err
      | Inr (s1, tr1) \<Rightarrow>
          if forward_to_remote_syslog s1 then Inr (forward_remote_syslog_iovec e s1 tr1 iovec)
          else Inr (s1, tr1))"

definition server_forward_syslog ::
  "env \<Rightarrow> Server \<Rightarrow> event list \<Rightarrow> int \<Rightarrow> string option \<Rightarrow> string \<Rightarrow> ucred option \<Rightarrow>
     timeval option \<Rightarrow> error + (Server \<times> event list)" where
  "server_forward_syslog e s tr pri ident msg cred tv =
     (if \<not> pri \<ge> 0 \<or> \<not> pri \<le> 999 then Inl AssertionFailed
      else if LOG_PRI pri > max_level_syslog s then Inr (s, tr)
      else
        let sm0 = (syslog_init_message (stack_sm e))\<lparr>priority := pri\<rparr> in
        case localtime_r e (forward_time e tv) of
          None \<Rightarrow> Inr (s, tr)
        | Some t \<Rightarrow>
            let sm1 = sm0\<lparr>timestamp := t\<rparr>;
                sm2 = (if \<not> isempty (hostname_field s)
                       then sm1\<lparr>hostname := the (hostname_field s)\<rparr> else sm1);
                ident1 = (case cred of
                            None \<Rightarrow> ident
                          | Some c \<Rightarrow>
                              (case ident of None \<Rightarrow> get_process_comm e (pid c)
                               | Some i \<Rightarrow> Some i));
                sm3 = (case cred of None \<Rightarrow> sm2 | Some c \<Rightarrow> sm2\<lparr>procid := pid c\<rparr>);
                sm4 = (case ident1 of None \<Rightarrow> sm3 | Some i \<Rightarrow> sm3\<lparr>appname := i\<rparr>);
                sm5 = sm4\<lparr>message := msg\<rparr>
            in (case syslog_fill_iovec e sm5 10 of
                  (r, sm6, iovec) \<Rightarrow>
                    if r \<le> 0 then Inr (s, tr) else forward_both e s tr iovec cred))"




section \<open>The loss-warning throttle\<close>

definition server_maybe_warn_forward_syslog_missed ::
  "env \<Rightarrow> Server \<Rightarrow> event list \<Rightarrow> Server \<times> event list" where
  "server_maybe_warn_forward_syslog_missed e s tr =
     (if n_forward_syslog_missed s \<le> 0 then (s, tr)
      else
        let n = now_monotonic e in
        if last_warn_forward_syslog_missed s + WARN_FORWARD_SYSLOG_MISSED_USEC > n then (s, tr)
        else (s\<lparr>n_forward_syslog_missed := 0, last_warn_forward_syslog_missed := n\<rparr>,
              tr @ [DriverMessage (n_forward_syslog_missed s)]))"

section \<open>The parser's inputs in the spec's words\<close>

text \<open>
  The classes of the date prefix as the spec lists them: a letter is \<open>A..Z\<close> or \<open>a..z\<close>, a
  digit is \<open>0..9\<close>. \<open>date_prefix\<close> says that the string has the sixteen positions
  \<open>"Mmm dd hh:mm:ss "\<close>, each in its class.
\<close>

definition is_letter :: "char \<Rightarrow> bool" where
  "is_letter c = ((of_char c :: nat) \<in> {65..90} \<union> {97..122})"

definition is_digit :: "char \<Rightarrow> bool" where
  "is_digit c = ((of_char c :: nat) \<in> {48..57})"

definition is_space_or_digit :: "char \<Rightarrow> bool" where
  "is_space_or_digit c = (c = CHR '' '' \<or> is_digit c)"

definition date_prefix :: "string \<Rightarrow> bool" where
  "date_prefix buf =
     (16 \<le> length buf
      \<and> is_letter (buf ! 0) \<and> is_letter (buf ! 1) \<and> is_letter (buf ! 2)
      \<and> buf ! 3 = CHR '' ''
      \<and> is_space_or_digit (buf ! 4) \<and> is_digit (buf ! 5)
      \<and> buf ! 6 = CHR '' ''
      \<and> is_space_or_digit (buf ! 7) \<and> is_digit (buf ! 8)
      \<and> buf ! 9 = CHR '':''
      \<and> is_space_or_digit (buf ! 10) \<and> is_digit (buf ! 11)
      \<and> buf ! 12 = CHR '':''
      \<and> is_space_or_digit (buf ! 13) \<and> is_digit (buf ! 14)
      \<and> buf ! 15 = CHR '' '')"

text \<open>
  The first whitespace-delimited token of a string, in the spec's words: leading
  whitespace is dropped, the token runs up to the next whitespace character or the end.
\<close>

definition first_token :: "string \<Rightarrow> string \<Rightarrow> string" where
  "first_token ws buf = takeWhile (\<lambda>c. c \<notin> set ws) (dropWhile (\<lambda>c. c \<in> set ws) buf)"


text \<open>The timestamp fragment: what \<open>strftime\<close> rendered, or \<open>"- "\<close> when it returned 0.\<close>

definition timestamp_or_dash :: "env \<Rightarrow> tm \<Rightarrow> string" where
  "timestamp_or_dash e t = (if fst (strftime e t) \<le> 0 then ''- '' else snd (strftime e t))"

section \<open>Scenarios\<close>

text \<open>
  \<open>consecutive_sends e k\<close>: \<open>k\<close> calls of \<open>forward_syslog_iovec\<close> in a row, each on the state
  and the trace the one before left.
\<close>

fun consecutive_sends ::
  "env \<Rightarrow> nat \<Rightarrow> Server \<Rightarrow> event list \<Rightarrow> string list \<Rightarrow> ucred option \<Rightarrow>
     error + (Server \<times> event list)" where
  "consecutive_sends e 0 s tr iov cred = Inr (s, tr)"
| "consecutive_sends e (Suc k) s tr iov cred =
     (case forward_syslog_iovec e s tr iov cred of
        Inl err \<Rightarrow> Inl err
      | Inr (s1, tr1) \<Rightarrow> consecutive_sends e k s1 tr1 iov cred)"

fun is_driver_message :: "event \<Rightarrow> bool" where
  "is_driver_message (DriverMessage n) = True"
| "is_driver_message ev = False"

text \<open>
  \<open>consecutive_remote_sends e k\<close>: \<open>k\<close> calls of \<open>forward_remote_syslog_iovec\<close> in a row.
  \<open>not_inet_warnings\<close> are the two lines \<open>maybe_open_remote_syslog\<close> logs for a target that
  is not \<open>AF_INET\<close>.
\<close>

fun consecutive_remote_sends ::
  "env \<Rightarrow> nat \<Rightarrow> Server \<Rightarrow> event list \<Rightarrow> string list \<Rightarrow> Server \<times> event list" where
  "consecutive_remote_sends e 0 s tr iov = (s, tr)"
| "consecutive_remote_sends e (Suc k) s tr iov =
     (case forward_remote_syslog_iovec e s tr iov of
        (s1, tr1) \<Rightarrow> consecutive_remote_sends e k s1 tr1 iov)"

definition not_inet_warnings :: "event list" where
  "not_inet_warnings =
     [LogWarning ''remote syslog forwarding target configured: %s'',
      LogWarning ''non AF_INET target for remote syslog forwarding configured. ignoring.'']"


section \<open>Values for the examples\<close>

definition example_tm :: tm where
  "example_tm = \<lparr>tm_sec = 15, tm_min = 14, tm_hour = 22, tm_mday = 11, tm_mon = 9, tm_year = 103,
     tm_wday = 6, tm_yday = 283, tm_isdst = 0, tm_gmtoff = 0\<rparr>"

definition example_sm :: SyslogMessage where
  "example_sm = \<lparr>priority = 0, timestamp = example_tm, hostname = [], appname = [], msgid = [],
     message = [], procid = 0, buf_priver = [], buf_timestamp = [], buf_procid = []\<rparr>"

definition example_env :: env where
  "example_env = \<lparr>getpid = 1, sendmsg_syslog = (\<lambda>i. None), socket_inet = (\<lambda>i. 7),
     now_realtime = 1065910455000000, now_monotonic = 5000000,
     localtime_r = (\<lambda>t. Some example_tm),
     strftime = (\<lambda>t. (25, ''2003-10-11T22:14:15+0000 '')),
     get_process_comm = (\<lambda>p. None), syslog_parse_priority = (\<lambda>b d. (0, d)),
     parse_pid = (\<lambda>x. if x = ''1234'' then Some 1234 else None),
     whitespace = WHITESPACE, procid_size = 32,
     n_iovec_meta_fields = 20, stack_sm = example_sm\<rparr>"

definition example_server :: Server where
  "example_server = \<lparr>syslog_fd = 3, remote_syslog_fd = - 1,
     remote_syslog_dest = \<lparr>sin_family = 2, sin_port = 514, sin_addr = 0x0100007f\<rparr>,
     n_forward_syslog_missed = 0, last_warn_forward_syslog_missed = 0, max_level_syslog = 7,
     forward_to_syslog = True, forward_to_remote_syslog = False, forward_to_kmsg = False,
     forward_to_console = False, forward_to_wall = False, hostname_field = None\<rparr>"

definition example_ucred :: ucred where
  "example_ucred = \<lparr>pid = 4711, uid = 1000, gid = 100\<rparr>"

definition example_server_inet6 :: Server where
  "example_server_inet6 =
     example_server\<lparr>forward_to_remote_syslog := True,
       remote_syslog_dest := \<lparr>sin_family = 10, sin_port = 514, sin_addr = 1\<rparr>\<rparr>"

definition example_server_no_target :: Server where
  "example_server_no_target =
     example_server\<lparr>forward_to_remote_syslog := True,
       remote_syslog_dest := \<lparr>sin_family = 2, sin_port = 514, sin_addr = 0xffffffff\<rparr>\<rparr>"

section \<open>Facility clamping\<close>

lemma and7: "(p::int) AND 7 = p mod 8"
proof -
  have "(7::int) = mask 3" by (simp add: mask_eq_exp_minus_1)
  then have "p AND 7 = take_bit 3 p" by (simp add: take_bit_eq_mask)
  then show ?thesis by (simp add: take_bit_eq_mod)
qed

lemma shr3: "drop_bit 3 (p::int) = p div 8"
  by (simp add: drop_bit_eq_div)

lemma clamp_facility: "drop_bit 3 (((p::int) AND 7) + 184) = 23"
  by (simp add: and7 shr3)

lemma clamp_severity: "(((p::int) AND 7) + 184) AND 7 = p AND 7"
  unfolding and7 by presburger

text \<open>
  C2. For a priority in 0..999, \<open>syslog_fill_iovec\<close> leaves a priority whose facility
  (the bits above the low 3) is at most 23 and whose severity (the low 3 bits) is the one
  it was given; a priority whose facility is already at most 23 is not changed. The
  first fragment prints the clamped priority.
\<close>

theorem fill_iovec_clamps_facility:
  assumes "0 \<le> priority sm" and "priority sm \<le> 999" and "10 \<le> n"
    and "syslog_fill_iovec e sm n = (r, sm', iov)"
  shows "drop_bit 3 (priority sm') \<le> 23
       \<and> priority sm' AND 7 = priority sm AND 7
       \<and> (drop_bit 3 (priority sm) \<le> 23 \<longrightarrow> priority sm' = priority sm)
       \<and> iov ! 0 = ''<'' @ format_i (priority sm') @ ''>1 ''"
proof (cases "drop_bit 3 (priority sm) > 23")
  case True
  with assms(3,4) have "priority sm' = (priority sm AND 7) + push_bit 3 23"
    and "iov ! 0 = ''<'' @ format_i (priority sm') @ ''>1 ''"
    by (auto simp: syslog_fill_iovec_def Let_def)
  with True show ?thesis
    by (simp add: clamp_facility clamp_severity)
next
  case False
  with assms(3,4) have "priority sm' = priority sm"
    and "iov ! 0 = ''<'' @ format_i (priority sm') @ ''>1 ''"
    by (auto simp: syslog_fill_iovec_def Let_def)
  with False show ?thesis by simp
qed

text \<open>
  Facility 40 with severity 3 (priority 323) becomes facility 23 with severity 3
  (priority 187); priority 34 passes through.
\<close>

theorem fill_iovec_clamps_facility_witness:
  "priority (fst (snd (syslog_fill_iovec example_env (example_sm\<lparr>priority := 323\<rparr>) 10))) = 187
   \<and> drop_bit 3 (187 :: int) = 23 \<and> (187 :: int) AND 7 = 3 \<and> (323 :: int) AND 7 = 3
   \<and> drop_bit 3 (323 :: int) = 40
   \<and> hd (snd (snd (syslog_fill_iovec example_env (example_sm\<lparr>priority := 323\<rparr>) 10))) = ''<187>1 ''
   \<and> priority (fst (snd (syslog_fill_iovec example_env (example_sm\<lparr>priority := 34\<rparr>) 10))) = 34"
proof -
  let ?sm = "example_sm\<lparr>priority := 323\<rparr>"
  let ?sm2 = "example_sm\<lparr>priority := 34\<rparr>"
  obtain r sm' iov where eq: "syslog_fill_iovec example_env ?sm 10 = (r, sm', iov)"
    using prod_cases3 by blast
  obtain r2 sm2' iov2 where eq2: "syslog_fill_iovec example_env ?sm2 10 = (r2, sm2', iov2)"
    using prod_cases3 by blast
  have h: "0 \<le> priority ?sm" "priority ?sm \<le> 999" "(10::nat) \<le> 10"
    by simp_all
  have h2: "0 \<le> priority ?sm2" "priority ?sm2 \<le> 999" "drop_bit 3 (priority ?sm2) \<le> 23"
    by simp_all
  note a = fill_iovec_clamps_facility [OF h eq]
  note b = fill_iovec_clamps_facility [OF h2(1,2) h(3) eq2]
  have v: "priority sm' = 187" "hd iov = ''<187>1 ''"
    using eq by (auto simp: syslog_fill_iovec_def Let_def format_i_def digits.simps
        example_sm_def example_env_def)
  from b h2(3) have "priority sm2' = 34" by simp
  with a v eq eq2 show ?thesis by simp
qed

section \<open>The ten fragments\<close>

text \<open>
  C3. \<open>syslog_fill_iovec\<close> returns \<open>-1\<close> and writes nothing when the capacity is below 10;
  otherwise it returns 10 and the ten fragments in the order priority and version,
  timestamp, hostname, blank, application name, blank, process id, message id,
  structured data placeholder, message. After \<open>syslog_init_message\<close> the fragments are
  \<open>"<14>1 "\<close>, the timestamp or \<open>"- "\<close>, \<open>"-"\<close>, \<open>" "\<close>, \<open>"-"\<close>, \<open>" "\<close>, \<open>"- "\<close>, \<open>"-"\<close>, \<open>" - "\<close>, \<open>"-"\<close>.
\<close>

theorem fill_iovec_ten_fragments:
  "(n < 10 \<longrightarrow> syslog_fill_iovec e sm n = (- 1, sm, []))
   \<and> (10 \<le> n \<longrightarrow>
        (\<exists>sm' pv host pr.
           syslog_fill_iovec e sm n =
             (10, sm', [pv, timestamp_or_dash e (timestamp sm), host, '' '', appname sm, '' '',
                        pr, msgid sm, '' - '', message sm])
           \<and> pv = ''<'' @ format_i (priority sm') @ ''>1 ''
           \<and> host = (if take 10 (hostname sm) = ''_HOSTNAME='' then drop 10 (hostname sm)
                       else hostname sm)
           \<and> pr = (if procid sm \<noteq> 0
                     then take (procid_size e - 1) (''['' @ format_i (procid sm) @ '']: '')
                     else ''- ''))
        \<and> syslog_fill_iovec e (syslog_init_message sm) n =
            (10,
             (syslog_init_message sm)\<lparr>buf_priver := ''<14>1 '',
                buf_timestamp := snd (strftime e (timestamp sm)), buf_procid := ''- ''\<rparr>,
             [''<14>1 '', timestamp_or_dash e (timestamp sm), ''-'', '' '', ''-'', '' '', ''- '',
              ''-'', '' - '', ''-'']))"
proof (intro conjI impI)
  assume "n < 10"
  then show "syslog_fill_iovec e sm n = (- 1, sm, [])"
    by (simp add: syslog_fill_iovec_def)
next
  assume n: "10 \<le> n"
  then show "\<exists>sm' pv host pr.
           syslog_fill_iovec e sm n =
             (10, sm', [pv, timestamp_or_dash e (timestamp sm), host, '' '', appname sm, '' '',
                        pr, msgid sm, '' - '', message sm])
           \<and> pv = ''<'' @ format_i (priority sm') @ ''>1 ''
           \<and> host = (if take 10 (hostname sm) = ''_HOSTNAME='' then drop 10 (hostname sm)
                       else hostname sm)
           \<and> pr = (if procid sm \<noteq> 0
                     then take (procid_size e - 1) (''['' @ format_i (procid sm) @ '']: '')
                     else ''- '')"
    by (simp add: syslog_fill_iovec_def Let_def timestamp_or_dash_def)
next
  assume n: "10 \<le> n"
  have d: "drop_bit 3 (14 :: int) = 1"
    by (simp add: drop_bit_eq_div)
  have s: "format_i 14 = ''14''"
    by (simp add: format_i_def digits.simps)
  from n show "syslog_fill_iovec e (syslog_init_message sm) n =
            (10,
             (syslog_init_message sm)\<lparr>buf_priver := ''<14>1 '',
                buf_timestamp := snd (strftime e (timestamp sm)), buf_procid := ''- ''\<rparr>,
             [''<14>1 '', timestamp_or_dash e (timestamp sm), ''-'', '' '', ''-'', '' '', ''- '',
              ''-'', '' - '', ''-''])"
    by (simp add: syslog_fill_iovec_def syslog_init_message_def Let_def timestamp_or_dash_def d s)
qed

text \<open>
  Capacity 9 fails; capacity 10 on a fresh record gives the ten fragments, with the
  rendered timestamp and, when \<open>strftime\<close> returns 0, with \<open>"- "\<close>.
\<close>

theorem fill_iovec_ten_fragments_witness:
  "syslog_fill_iovec example_env example_sm 9 = (- 1, example_sm, [])
   \<and> snd (snd (syslog_fill_iovec example_env (syslog_init_message example_sm) 10)) =
       [''<14>1 '', ''2003-10-11T22:14:15+0000 '', ''-'', '' '', ''-'', '' '', ''- '', ''-'',
        '' - '', ''-'']
   \<and> snd (snd (syslog_fill_iovec (example_env\<lparr>strftime := (\<lambda>t. (0, []))\<rparr>)
         (syslog_init_message example_sm) 10)) =
       [''<14>1 '', ''- '', ''-'', '' '', ''-'', '' '', ''- '', ''-'', '' - '', ''-'']"
proof -
  have a: "(9::nat) < 10" and b: "(10::nat) \<le> 10"
    by simp_all
  from a fill_iovec_ten_fragments [of 9 example_env example_sm]
  have 1: "syslog_fill_iovec example_env example_sm 9 = (- 1, example_sm, [])"
    by simp
  from b fill_iovec_ten_fragments [of 10 example_env example_sm]
  have 2: "snd (snd (syslog_fill_iovec example_env (syslog_init_message example_sm) 10)) =
       [''<14>1 '', ''2003-10-11T22:14:15+0000 '', ''-'', '' '', ''-'', '' '', ''- '', ''-'',
        '' - '', ''-'']"
    by (simp add: timestamp_or_dash_def example_env_def)
  from b fill_iovec_ten_fragments [of 10 "example_env\<lparr>strftime := (\<lambda>t. (0, []))\<rparr>" example_sm]
  have 3: "snd (snd (syslog_fill_iovec (example_env\<lparr>strftime := (\<lambda>t. (0, []))\<rparr>)
         (syslog_init_message example_sm) 10)) =
       [''<14>1 '', ''- '', ''-'', '' '', ''-'', '' '', ''- '', ''-'', '' - '', ''-'']"
    by (simp add: timestamp_or_dash_def)
  from 1 2 3 show ?thesis by simp
qed

section \<open>Skipping the legacy date\<close>

lemma class_ok_simps2:
  "class_ok LETTER c = is_letter c"
  "class_ok NUMBER c = is_digit c"
  "class_ok SPACE_OR_NUMBER c = is_space_or_digit c"
  by (auto simp: is_letter_def is_digit_def is_space_or_digit_def)

lemma skip_date_loop_short:
  "length p < length cs \<Longrightarrow> skip_date_loop cs p = None"
  by (induction cs p rule: skip_date_loop.induct) auto

lemma skip_date_loop_Some:
  "skip_date_loop cs p = Some q \<longleftrightarrow>
     length cs \<le> length p \<and> q = drop (length cs) p \<and> (\<forall>i < length cs. class_ok (cs ! i) (p ! i))"
proof (induction cs p rule: skip_date_loop.induct)
  case (3 c cs x p)
  then show ?case
    by (auto simp: less_Suc_eq_0_disj)
qed auto

lemma length_sequence: "length sequence = 16"
  by (simp add: sequence_def)

lemma sequence_classes:
  "(\<forall>i < length sequence. class_ok (sequence ! i) (buf ! i)) \<longleftrightarrow>
     is_letter (buf ! 0) \<and> is_letter (buf ! 1) \<and> is_letter (buf ! 2)
      \<and> buf ! 3 = CHR '' ''
      \<and> is_space_or_digit (buf ! 4) \<and> is_digit (buf ! 5)
      \<and> buf ! 6 = CHR '' ''
      \<and> is_space_or_digit (buf ! 7) \<and> is_digit (buf ! 8)
      \<and> buf ! 9 = CHR '':''
      \<and> is_space_or_digit (buf ! 10) \<and> is_digit (buf ! 11)
      \<and> buf ! 12 = CHR '':''
      \<and> is_space_or_digit (buf ! 13) \<and> is_digit (buf ! 14)
      \<and> buf ! 15 = CHR '' ''"
  unfolding sequence_def
  by (simp add: All_less_Suc eval_nat_numeral class_ok_simps2 del: class_ok.simps(2,3,4)) blast

lemma skip_date_loop_sequence:
  "skip_date_loop sequence buf = (if date_prefix buf then Some (drop 16 buf) else None)"
proof (cases "skip_date_loop sequence buf")
  case None
  have "\<not> date_prefix buf"
  proof
    assume d: "date_prefix buf"
    then have "skip_date_loop sequence buf = Some (drop 16 buf)"
      unfolding skip_date_loop_Some sequence_classes
      by (simp add: date_prefix_def length_sequence)
    with None show False by simp
  qed
  with None show ?thesis by simp
next
  case (Some q)
  then have "date_prefix buf \<and> q = drop 16 buf"
    unfolding skip_date_loop_Some sequence_classes
    by (simp add: date_prefix_def length_sequence)
  with Some show ?thesis by simp
qed

text \<open>
  C5, amended. The class sequence of \<open>syslog_skip_date\<close> has sixteen positions (three
  letters, blank, blank or digit, digit, blank, blank or digit, digit, colon, blank or
  digit, digit, colon, blank or digit, digit, blank). When the string has all sixteen,
  each in its class, the cursor moves past them; in every other case, a string that ends
  early included, the cursor stays where it was.
\<close>

theorem skip_date_all_or_nothing:
  "length sequence = 16
   \<and> syslog_skip_date buf = (if date_prefix buf then drop 16 buf else buf)"
  by (simp add: syslog_skip_date_def skip_date_loop_sequence length_sequence)

text \<open>
  \<open>"Jan  1 00:00:00 rest"\<close> is skipped up to \<open>"rest"\<close>; \<open>"garbage text"\<close> and a date cut
  short stay as they are.
\<close>

theorem skip_date_all_or_nothing_witness:
  "syslog_skip_date ''Jan  1 00:00:00 rest'' = ''rest''
   \<and> syslog_skip_date ''garbage text'' = ''garbage text''
   \<and> syslog_skip_date ''Jan  1 00:00'' = ''Jan  1 00:00''"
proof -
  have a: "date_prefix ''Jan  1 00:00:00 rest''"
    by (simp add: date_prefix_def is_letter_def is_digit_def is_space_or_digit_def)
  have b: "\<not> date_prefix ''garbage text''" "\<not> date_prefix ''Jan  1 00:00''"
    by (simp_all add: date_prefix_def)
  from a b skip_date_all_or_nothing [of "''Jan  1 00:00:00 rest''"]
    skip_date_all_or_nothing [of "''garbage text''"]
    skip_date_all_or_nothing [of "''Jan  1 00:00''"]
  show ?thesis by simp
qed

text \<open>
  C5 as stated speaks of exactly 15 positions. The date \<open>"Jan  1 00:00:00 "\<close> takes 16:
  the cursor ends at \<open>"rest"\<close>, not one character earlier, and a string with only the
  first 15 positions is not skipped at all.
\<close>

theorem skip_date_fifteen_counterexample:
  "syslog_skip_date ''Jan  1 00:00:00 rest'' = ''rest''
   \<and> syslog_skip_date ''Jan  1 00:00:00 rest'' \<noteq> drop 15 ''Jan  1 00:00:00 rest''
   \<and> length ''Jan  1 00:00:00 rest'' - length (syslog_skip_date ''Jan  1 00:00:00 rest'') \<noteq> 15
   \<and> syslog_skip_date ''Jan  1 00:00:00'' = ''Jan  1 00:00:00''"
  by (simp add: syslog_skip_date_def sequence_def)

section \<open>Parsing the identifier\<close>

lemma drop_strspn: "drop (strspn buf ws) buf = dropWhile (\<lambda>c. c \<in> set ws) buf"
  unfolding strspn_def by (rule dropWhile_eq_drop [symmetric])


lemma take_strcspn: "take (strcspn p ws) p = takeWhile (\<lambda>c. c \<notin> set ws) p"
  unfolding strcspn_def by (rule takeWhile_eq_take [symmetric])

lemma strcspn_first_token:
  "strcspn (drop (strspn buf ws) buf) ws = length (first_token ws buf)"
  by (simp add: first_token_def drop_strspn strcspn_def)

lemma nth_takeWhile_last:
  assumes "takeWhile P p \<noteq> []"
  shows "p ! (length (takeWhile P p) - 1) = last (takeWhile P p)"
proof -
  let ?t = "takeWhile P p"
  have "last ?t = ?t ! (length ?t - 1)"
    using assms by (simp add: last_conv_nth)
  also have "\<dots> = p ! (length ?t - 1)"
    using assms by (intro takeWhile_nth) simp
  finally show ?thesis by simp
qed

lemma strspn_prefix:
  assumes "set a \<subseteq> set ws" and "b = [] \<or> hd b \<notin> set ws"
  shows "strspn (a @ b) ws = length a"
proof -
  have "takeWhile (\<lambda>c. c \<in> set ws) b = []"
    using assms(2) by (cases b) auto
  moreover have "takeWhile (\<lambda>c. c \<in> set ws) (a @ b) = a @ takeWhile (\<lambda>c. c \<in> set ws) b"
    using assms(1) by (intro takeWhile_append2) auto
  ultimately show ?thesis by (simp add: strspn_def)
qed

lemma strcspn_prefix:
  assumes "set a \<inter> set ws = {}" and "b = [] \<or> hd b \<in> set ws"
  shows "strcspn (a @ b) ws = length a"
proof -
  have "takeWhile (\<lambda>c. c \<notin> set ws) b = []"
    using assms(2) by (cases b) auto
  moreover have "takeWhile (\<lambda>c. c \<notin> set ws) (a @ b) = a @ takeWhile (\<lambda>c. c \<notin> set ws) b"
    using assms(1) by (intro takeWhile_append2) auto
  ultimately show ?thesis by (simp add: strcspn_def)
qed

lemma scan_bracket_found:
  assumes "CHR ''['' \<notin> set b" and "j \<le> length b"
  shows "scan_bracket (a @ CHR ''['' # b @ c) (length a + j) = Some (length a)"
  using assms(2)
proof (induction j)
  case 0
  then show ?case by (cases "length a") (simp_all add: nth_append)
next
  case (Suc j)
  then have "j < length b" by simp
  then have "(a @ CHR ''['' # b @ c) ! (length a + Suc j) = b ! j"
    by (simp add: nth_append)
  moreover from \<open>j < length b\<close> assms(1) have "b ! j \<noteq> CHR ''[''"
    by (metis nth_mem)
  ultimately show ?case using Suc by simp
qed

text \<open>
  C6. A token \<open>ident[pid]:\<close>, after any leading whitespace and followed by whitespace or
  the end of the string, where \<open>pid\<close> holds no \<open>'['\<close> (so that the bracket in front of it is
  the one the backward scan meets first): \<open>syslog_parse_identifier\<close> yields \<open>ident\<close> as the
  identifier and \<open>pid\<close> as the pid, returns the length of the token and of the whitespace
  after it, and leaves the cursor behind that whitespace.
\<close>

theorem parse_identifier_bracketed_pid:
  assumes lead: "set lead \<subseteq> set ws"
    and tok: "set (ident @ ''['' @ pidstr @ '']:'') \<inter> set ws = {}"
    and nobr: "CHR ''['' \<notin> set pidstr"
    and trail: "set trail \<subseteq> set ws"
    and rest: "rest = [] \<or> hd rest \<notin> set ws"
    and delim: "trail \<noteq> [] \<or> rest = []"
  shows "syslog_parse_identifier ws pre (lead @ ident @ ''['' @ pidstr @ '']:'' @ trail @ rest)
           identifier pid_out =
         Inr (length (ident @ ''['' @ pidstr @ '']:'' @ trail), rest, Some ident, Some pidstr)"
proof -
  define t where "t = ident @ ''['' @ pidstr @ '']:''"
  define p where "p = t @ trail @ rest"
  define buf where "buf = lead @ p"
  have t_ne: "t \<noteq> []" and t_len: "length t = length ident + length pidstr + 3"
    by (simp_all add: t_def)
  have hd_t: "hd p \<notin> set ws"
    using tok t_ne unfolding p_def t_def [symmetric]
    by (cases t) auto
  have p_ne: "p \<noteq> []"
    using t_ne by (simp add: p_def)
  have sp: "strspn buf ws = length lead"
    unfolding buf_def using lead hd_t by (intro strspn_prefix) simp_all
  have tr: "trail @ rest = [] \<or> hd (trail @ rest) \<in> set ws"
    using trail delim by (cases trail) auto
  have cs: "strcspn p ws = length t"
    unfolding p_def using tok tr unfolding t_def [symmetric] by (intro strcspn_prefix) simp_all
  have sp2: "strspn (trail @ rest) ws = length trail"
    using trail rest by (intro strspn_prefix) simp_all
  have colon: "p ! (length ident + length pidstr + 2) = CHR '':''"
    by (simp add: p_def t_def nth_append)
  have close: "p ! (length ident + length pidstr + 1) = CHR '']''"
    by (simp add: p_def t_def nth_append)
  have p_form: "p = ident @ CHR ''['' # (pidstr @ '']'') @ ('':'' @ trail @ rest)"
    by (simp add: p_def t_def)
  have "CHR ''['' \<notin> set (pidstr @ '']'')"
    using nobr by simp
  then have "scan_bracket (ident @ CHR ''['' # (pidstr @ '']'') @ ('':'' @ trail @ rest))
               (length ident + length (pidstr @ '']'')) = Some (length ident)"
    by (intro scan_bracket_found) simp_all
  then have scan: "scan_bracket p (length ident + length pidstr + 1) = Some (length ident)"
    unfolding p_form [symmetric] by simp
  have pidv: "strndup (drop (length ident + 1) p) (length pidstr) = pidstr"
    by (simp add: strndup_def p_def t_def)
  have idv: "strndup p (length ident) = ident"
    by (simp add: strndup_def p_def t_def)
  have dr: "drop (length t) p = trail @ rest" "drop (length t + length trail) p = rest"
    by (simp_all add: p_def)
  have "syslog_parse_identifier ws pre buf identifier pid_out =
          Inr (length t + length trail, rest, Some ident, Some pidstr)"
    unfolding syslog_parse_identifier_def Let_def sp
    using cs colon close scan pidv idv dr sp2
    by (simp add: buf_def t_len)
  then show ?thesis
    by (simp add: buf_def p_def t_def)
qed

text \<open>
  \<open>"myapp[123]: hello"\<close> yields identifier \<open>myapp\<close>, pid \<open>123\<close>, 12 bytes consumed, cursor at
  \<open>"hello"\<close>.
\<close>

theorem parse_identifier_bracketed_pid_witness:
  "syslog_parse_identifier WHITESPACE [] ''myapp[123]: hello'' None None =
     Inr (12, ''hello'', Some ''myapp'', Some ''123'')"
  using parse_identifier_bracketed_pid [of "[]" WHITESPACE "''myapp''" "''123''" "'' ''" "''hello''"
      "[]" None None]
  by (simp add: WHITESPACE_def)

text \<open>
  C7, amended. When the first whitespace-delimited token is empty (the string is empty or
  all whitespace) or does not end in a colon, \<open>syslog_parse_identifier\<close> returns 0 and leaves
  the cursor, the identifier and the pid as they were.
\<close>

theorem parse_identifier_no_header:
  assumes "first_token ws buf = [] \<or> last (first_token ws buf) \<noteq> CHR '':''"
  shows "syslog_parse_identifier ws pre buf identifier pid_out = Inr (0, buf, identifier, pid_out)"
proof -
  let ?p = "drop (strspn buf ws) buf"
  have l: "strcspn ?p ws = length (first_token ws buf)"
    by (rule strcspn_first_token)
  show ?thesis
  proof (cases "first_token ws buf = []")
    case True
    with l show ?thesis
      by (simp add: syslog_parse_identifier_def Let_def)
  next
    case False
    with assms have c: "last (first_token ws buf) \<noteq> CHR '':''"
      by simp
    from False have "?p ! (length (first_token ws buf) - 1) = last (first_token ws buf)"
      unfolding first_token_def drop_strspn by (rule nth_takeWhile_last)
    with c l show ?thesis
      by (simp add: syslog_parse_identifier_def Let_def)
  qed
qed


text \<open>
  \<open>"nocolon hello"\<close> and a string of blanks: nothing is consumed, nothing is yielded.
\<close>

theorem parse_identifier_no_header_witness:
  "syslog_parse_identifier WHITESPACE [] ''nocolon hello'' None None = Inr (0, ''nocolon hello'', None, None)
   \<and> syslog_parse_identifier WHITESPACE [] ''   '' None None = Inr (0, ''   '', None, None)"
  using parse_identifier_no_header [of WHITESPACE "''nocolon hello''" "[]" None None]
    parse_identifier_no_header [of WHITESPACE "''   ''" "[]" None None]
  by (simp add: WHITESPACE_def first_token_def)

text \<open>
  C7 as stated includes tokens of length 1. The token \<open>":"\<close> has length 1 and ends in a
  colon: on \<open>" : hello"\<close> the function yields the empty identifier, returns 2 and moves the
  cursor to \<open>"hello"\<close>.
\<close>

theorem parse_identifier_colon_counterexample:
  "first_token WHITESPACE '' : hello'' = '':''
   \<and> syslog_parse_identifier WHITESPACE [] '' : hello'' None None = Inr (2, ''hello'', Some [], None)"
  by (simp add: first_token_def WHITESPACE_def syslog_parse_identifier_def strspn_def strcspn_def
      strndup_def Let_def)

section \<open>Outcomes of the local relay send\<close>

lemmas errno_defs = EPERM_def ENOENT_def ESRCH_def EAGAIN_def

lemma n_sendmsg_snoc [simp]:
  "n_sendmsg (tr @ [SendSyslog iov c]) = Suc (n_sendmsg tr)"
  "n_sendmsg (tr @ [LogDebug x]) = n_sendmsg tr"
  by (simp_all add: n_sendmsg_def)

lemma forward_ok:
  "iov \<noteq> [] \<Longrightarrow> sendmsg_syslog e (n_sendmsg tr) = None \<Longrightarrow>
     forward_syslog_iovec e s tr iov cred = Inr (s, tr @ [SendSyslog iov cred])"
  by (simp add: forward_syslog_iovec_def)

lemma forward_eagain:
  "iov \<noteq> [] \<Longrightarrow> sendmsg_syslog e (n_sendmsg tr) = Some EAGAIN \<Longrightarrow>
     forward_syslog_iovec e s tr iov cred =
       Inr (s\<lparr>n_forward_syslog_missed := n_forward_syslog_missed s + 1\<rparr>, tr @ [SendSyslog iov cred])"
  by (simp add: forward_syslog_iovec_def)

lemma forward_retry:
  assumes "iov \<noteq> []" and "sendmsg_syslog e (n_sendmsg tr) = Some err"
    and "err = EPERM \<or> err = ESRCH"
  shows "forward_syslog_iovec e s tr iov (Some c) =
     (let tr2 = tr @ [SendSyslog iov (Some c), SendSyslog iov (Some (c\<lparr>pid := getpid e\<rparr>))] in
      case sendmsg_syslog e (Suc (n_sendmsg tr)) of
        None \<Rightarrow> Inr (s, tr2)
      | Some err2 \<Rightarrow>
          if err2 = EAGAIN
          then Inr (s\<lparr>n_forward_syslog_missed := n_forward_syslog_missed s + 1\<rparr>, tr2)
          else if err2 = ENOENT then Inr (s, tr2)
          else Inr (s, tr2 @ [LogDebug err2]))"
  using assms
  by (auto simp: forward_syslog_iovec_def Let_def log_unless_enoent_def errno_defs
      split: option.splits)

lemma forward_enoent:
  "iov \<noteq> [] \<Longrightarrow> sendmsg_syslog e (n_sendmsg tr) = Some ENOENT \<Longrightarrow>
     forward_syslog_iovec e s tr iov cred = Inr (s, tr @ [SendSyslog iov cred])"
  by (auto simp: forward_syslog_iovec_def Let_def log_unless_enoent_def errno_defs
      split: option.splits)

lemma forward_other:
  assumes "iov \<noteq> []" and "sendmsg_syslog e (n_sendmsg tr) = Some err"
    and "err \<noteq> EAGAIN" and "err \<noteq> ENOENT"
    and "cred = None \<or> (err \<noteq> EPERM \<and> err \<noteq> ESRCH)"
  shows "forward_syslog_iovec e s tr iov cred = Inr (s, tr @ [SendSyslog iov cred, LogDebug err])"
  using assms
  by (auto simp: forward_syslog_iovec_def Let_def log_unless_enoent_def
      split: option.splits)

lemma forward_shape:
  assumes "iov \<noteq> []"
  shows "\<exists>s' rest. forward_syslog_iovec e s tr iov cred = Inr (s', tr @ SendSyslog iov cred # rest)
           \<and> n_sendmsg rest \<le> 1
           \<and> (s' = s \<or> s' = s\<lparr>n_forward_syslog_missed := n_forward_syslog_missed s + 1\<rparr>)"
  using assms
  by (auto simp: forward_syslog_iovec_def Let_def log_unless_enoent_def n_sendmsg_def
      split: option.splits)


text \<open>
  C1, amended. One call of \<open>forward_syslog_iovec\<close> with a non-empty array, by the outcome
  of its first \<open>sendmsg\<close>: on success the server state is unchanged; on \<open>EAGAIN\<close> the loss
  counter grows by one and nothing is sent again; on \<open>EPERM\<close> or \<open>ESRCH\<close> with credentials
  the message is sent once more with the daemon's pid in the credentials (uid and gid
  kept), and then success changes nothing, \<open>EAGAIN\<close> adds one to the loss counter, \<open>ENOENT\<close>
  is dropped silently and any other failure of the second send is logged at debug level;
  \<open>ENOENT\<close> on the first send is dropped silently; any other failure of the first send is
  logged at debug level and not retried. Every call returns, with one or two sends.
\<close>

theorem forward_syslog_iovec_outcomes:
  assumes "iov \<noteq> []"
  shows
    "(sendmsg_syslog e (n_sendmsg tr) = None \<longrightarrow>
        forward_syslog_iovec e s tr iov cred = Inr (s, tr @ [SendSyslog iov cred]))
     \<and> (sendmsg_syslog e (n_sendmsg tr) = Some EAGAIN \<longrightarrow>
        forward_syslog_iovec e s tr iov cred =
          Inr (s\<lparr>n_forward_syslog_missed := n_forward_syslog_missed s + 1\<rparr>,
               tr @ [SendSyslog iov cred]))
     \<and> (\<forall>c. cred = Some c
            \<and> (sendmsg_syslog e (n_sendmsg tr) = Some EPERM
               \<or> sendmsg_syslog e (n_sendmsg tr) = Some ESRCH) \<longrightarrow>
          (sendmsg_syslog e (Suc (n_sendmsg tr)) = None \<longrightarrow>
             forward_syslog_iovec e s tr iov cred =
               Inr (s, tr @ [SendSyslog iov cred,
                             SendSyslog iov (Some (c\<lparr>pid := getpid e\<rparr>))]))
          \<and> (sendmsg_syslog e (Suc (n_sendmsg tr)) = Some EAGAIN \<longrightarrow>
             forward_syslog_iovec e s tr iov cred =
               Inr (s\<lparr>n_forward_syslog_missed := n_forward_syslog_missed s + 1\<rparr>,
                    tr @ [SendSyslog iov cred,
                          SendSyslog iov (Some (c\<lparr>pid := getpid e\<rparr>))]))
          \<and> (sendmsg_syslog e (Suc (n_sendmsg tr)) = Some ENOENT \<longrightarrow>
             forward_syslog_iovec e s tr iov cred =
               Inr (s, tr @ [SendSyslog iov cred,
                             SendSyslog iov (Some (c\<lparr>pid := getpid e\<rparr>))]))
          \<and> (\<forall>err2. sendmsg_syslog e (Suc (n_sendmsg tr)) = Some err2
                 \<and> err2 \<noteq> EAGAIN \<and> err2 \<noteq> ENOENT \<longrightarrow>
             forward_syslog_iovec e s tr iov cred =
               Inr (s, tr @ [SendSyslog iov cred,
                             SendSyslog iov (Some (c\<lparr>pid := getpid e\<rparr>)),
                             LogDebug err2])))
     \<and> (sendmsg_syslog e (n_sendmsg tr) = Some ENOENT \<longrightarrow>
        forward_syslog_iovec e s tr iov cred = Inr (s, tr @ [SendSyslog iov cred]))
     \<and> (\<forall>err. sendmsg_syslog e (n_sendmsg tr) = Some err
            \<and> err \<noteq> EAGAIN \<and> err \<noteq> ENOENT
            \<and> (cred = None \<or> (err \<noteq> EPERM \<and> err \<noteq> ESRCH)) \<longrightarrow>
        forward_syslog_iovec e s tr iov cred =
          Inr (s, tr @ [SendSyslog iov cred, LogDebug err]))
     \<and> (\<exists>s' rest. forward_syslog_iovec e s tr iov cred = Inr (s', tr @ SendSyslog iov cred # rest)
            \<and> n_sendmsg rest \<le> 1)"
proof (intro conjI allI impI)
  assume "sendmsg_syslog e (n_sendmsg tr) = None"
  with assms show "forward_syslog_iovec e s tr iov cred = Inr (s, tr @ [SendSyslog iov cred])"
    by (rule forward_ok)
next
  assume "sendmsg_syslog e (n_sendmsg tr) = Some EAGAIN"
  with assms show "forward_syslog_iovec e s tr iov cred =
      Inr (s\<lparr>n_forward_syslog_missed := n_forward_syslog_missed s + 1\<rparr>, tr @ [SendSyslog iov cred])"
    by (rule forward_eagain)
next
  fix c
  assume a: "cred = Some c \<and> (sendmsg_syslog e (n_sendmsg tr) = Some EPERM
               \<or> sendmsg_syslog e (n_sendmsg tr) = Some ESRCH)"
  then obtain err where err: "sendmsg_syslog e (n_sendmsg tr) = Some err" "err = EPERM \<or> err = ESRCH"
    by blast
  note r = forward_retry [OF assms err, of s c]
  {
    assume "sendmsg_syslog e (Suc (n_sendmsg tr)) = None"
    with r a show "forward_syslog_iovec e s tr iov cred =
        Inr (s, tr @ [SendSyslog iov cred, SendSyslog iov (Some (c\<lparr>pid := getpid e\<rparr>))])"
      by simp
  next
    assume "sendmsg_syslog e (Suc (n_sendmsg tr)) = Some EAGAIN"
    with r a show "forward_syslog_iovec e s tr iov cred =
        Inr (s\<lparr>n_forward_syslog_missed := n_forward_syslog_missed s + 1\<rparr>,
             tr @ [SendSyslog iov cred, SendSyslog iov (Some (c\<lparr>pid := getpid e\<rparr>))])"
      by simp
  next
    assume "sendmsg_syslog e (Suc (n_sendmsg tr)) = Some ENOENT"
    with r a show "forward_syslog_iovec e s tr iov cred =
        Inr (s, tr @ [SendSyslog iov cred, SendSyslog iov (Some (c\<lparr>pid := getpid e\<rparr>))])"
      by (simp add: errno_defs)
  next
    fix err2
    assume "sendmsg_syslog e (Suc (n_sendmsg tr)) = Some err2 \<and> err2 \<noteq> EAGAIN \<and> err2 \<noteq> ENOENT"
    with r a show "forward_syslog_iovec e s tr iov cred =
        Inr (s, tr @ [SendSyslog iov cred, SendSyslog iov (Some (c\<lparr>pid := getpid e\<rparr>)),
                      LogDebug err2])"
      by simp
  }
next
  assume "sendmsg_syslog e (n_sendmsg tr) = Some ENOENT"
  with assms show "forward_syslog_iovec e s tr iov cred = Inr (s, tr @ [SendSyslog iov cred])"
    by (rule forward_enoent)
next
  fix err
  assume "sendmsg_syslog e (n_sendmsg tr) = Some err \<and> err \<noteq> EAGAIN \<and> err \<noteq> ENOENT
            \<and> (cred = None \<or> (err \<noteq> EPERM \<and> err \<noteq> ESRCH))"
  with assms show "forward_syslog_iovec e s tr iov cred =
      Inr (s, tr @ [SendSyslog iov cred, LogDebug err])"
    by (intro forward_other) simp_all
next
  from forward_shape [OF assms, of e s tr cred]
  show "\<exists>s' rest. forward_syslog_iovec e s tr iov cred = Inr (s', tr @ SendSyslog iov cred # rest)
            \<and> n_sendmsg rest \<le> 1"
    by blast
qed


text \<open>
  One call for each outcome: success, \<open>EAGAIN\<close>, \<open>ESRCH\<close> then success, \<open>EPERM\<close> then \<open>EAGAIN\<close>,
  \<open>ENOENT\<close>, \<open>ECONNREFUSED\<close> (111), \<open>EPERM\<close> then \<open>ENOENT\<close>, and \<open>ESRCH\<close> then \<open>ECONNREFUSED\<close>.
\<close>

theorem forward_syslog_iovec_outcomes_witness:
  "forward_syslog_iovec example_env example_server [] [''<14>1 x''] None =
     Inr (example_server, [SendSyslog [''<14>1 x''] None])
   \<and> forward_syslog_iovec (example_env\<lparr>sendmsg_syslog := (\<lambda>i. Some EAGAIN)\<rparr>) example_server []
       [''<14>1 x''] None =
     Inr (example_server\<lparr>n_forward_syslog_missed := 1\<rparr>, [SendSyslog [''<14>1 x''] None])
   \<and> forward_syslog_iovec
       (example_env\<lparr>sendmsg_syslog := (\<lambda>i. if i = 0 then Some ESRCH else None)\<rparr>) example_server []
       [''<14>1 x''] (Some example_ucred) =
     Inr (example_server,
          [SendSyslog [''<14>1 x''] (Some example_ucred),
           SendSyslog [''<14>1 x''] (Some \<lparr>pid = 1, uid = 1000, gid = 100\<rparr>)])
   \<and> forward_syslog_iovec
       (example_env\<lparr>sendmsg_syslog := (\<lambda>i. if i = 0 then Some EPERM else Some EAGAIN)\<rparr>)
       example_server [] [''<14>1 x''] (Some example_ucred) =
     Inr (example_server\<lparr>n_forward_syslog_missed := 1\<rparr>,
          [SendSyslog [''<14>1 x''] (Some example_ucred),
           SendSyslog [''<14>1 x''] (Some \<lparr>pid = 1, uid = 1000, gid = 100\<rparr>)])
   \<and> forward_syslog_iovec (example_env\<lparr>sendmsg_syslog := (\<lambda>i. Some ENOENT)\<rparr>) example_server []
       [''<14>1 x''] (Some example_ucred) =
     Inr (example_server, [SendSyslog [''<14>1 x''] (Some example_ucred)])
   \<and> forward_syslog_iovec (example_env\<lparr>sendmsg_syslog := (\<lambda>i. Some 111)\<rparr>) example_server []
       [''<14>1 x''] (Some example_ucred) =
     Inr (example_server, [SendSyslog [''<14>1 x''] (Some example_ucred), LogDebug 111])
   \<and> forward_syslog_iovec
       (example_env\<lparr>sendmsg_syslog := (\<lambda>i. if i = 0 then Some EPERM else Some ENOENT)\<rparr>)
       example_server [] [''<14>1 x''] (Some example_ucred) =
     Inr (example_server,
          [SendSyslog [''<14>1 x''] (Some example_ucred),
           SendSyslog [''<14>1 x''] (Some \<lparr>pid = 1, uid = 1000, gid = 100\<rparr>)])
   \<and> forward_syslog_iovec
       (example_env\<lparr>sendmsg_syslog := (\<lambda>i. if i = 0 then Some ESRCH else Some 111)\<rparr>)
       example_server [] [''<14>1 x''] (Some example_ucred) =
     Inr (example_server,
          [SendSyslog [''<14>1 x''] (Some example_ucred),
           SendSyslog [''<14>1 x''] (Some \<lparr>pid = 1, uid = 1000, gid = 100\<rparr>),
           LogDebug 111])"
proof -
  have h: "[''<14>1 x''] \<noteq> []"
    by simp
  have z: "n_sendmsg [] = 0"
    by (simp add: n_sendmsg_def)
  have c: "example_ucred\<lparr>pid := 1\<rparr> = \<lparr>pid = 1, uid = 1000, gid = 100\<rparr>"
    by (simp add: example_ucred_def)
  have n: "n_forward_syslog_missed example_server + 1 = 1"
    by (simp add: example_server_def)
  note t = forward_syslog_iovec_outcomes [OF h, where tr = "[]" and s = example_server]
  from t [of example_env None]
  have 1: "forward_syslog_iovec example_env example_server [] [''<14>1 x''] None =
     Inr (example_server, [SendSyslog [''<14>1 x''] None])"
    by (simp add: z example_env_def)
  from t [of "example_env\<lparr>sendmsg_syslog := (\<lambda>i. Some EAGAIN)\<rparr>" None]
  have 2: "forward_syslog_iovec (example_env\<lparr>sendmsg_syslog := (\<lambda>i. Some EAGAIN)\<rparr>) example_server []
       [''<14>1 x''] None =
     Inr (example_server\<lparr>n_forward_syslog_missed := 1\<rparr>, [SendSyslog [''<14>1 x''] None])"
    by (simp add: z n)
  from t [of "example_env\<lparr>sendmsg_syslog := (\<lambda>i. if i = 0 then Some ESRCH else None)\<rparr>"
      "Some example_ucred"]
  have 3: "forward_syslog_iovec
       (example_env\<lparr>sendmsg_syslog := (\<lambda>i. if i = 0 then Some ESRCH else None)\<rparr>) example_server []
       [''<14>1 x''] (Some example_ucred) =
     Inr (example_server,
          [SendSyslog [''<14>1 x''] (Some example_ucred),
           SendSyslog [''<14>1 x''] (Some \<lparr>pid = 1, uid = 1000, gid = 100\<rparr>)])"
    by (simp add: z c [symmetric] example_env_def)
  from t [of "example_env\<lparr>sendmsg_syslog := (\<lambda>i. if i = 0 then Some EPERM else Some EAGAIN)\<rparr>"
      "Some example_ucred"]
  have 4: "forward_syslog_iovec
       (example_env\<lparr>sendmsg_syslog := (\<lambda>i. if i = 0 then Some EPERM else Some EAGAIN)\<rparr>)
       example_server [] [''<14>1 x''] (Some example_ucred) =
     Inr (example_server\<lparr>n_forward_syslog_missed := 1\<rparr>,
          [SendSyslog [''<14>1 x''] (Some example_ucred),
           SendSyslog [''<14>1 x''] (Some \<lparr>pid = 1, uid = 1000, gid = 100\<rparr>)])"
    by (simp add: z n c [symmetric] example_env_def)
  from t [of "example_env\<lparr>sendmsg_syslog := (\<lambda>i. Some ENOENT)\<rparr>" "Some example_ucred"]
  have 5: "forward_syslog_iovec (example_env\<lparr>sendmsg_syslog := (\<lambda>i. Some ENOENT)\<rparr>) example_server []
       [''<14>1 x''] (Some example_ucred) =
     Inr (example_server, [SendSyslog [''<14>1 x''] (Some example_ucred)])"
    by (simp add: z)
  from t [of "example_env\<lparr>sendmsg_syslog := (\<lambda>i. Some 111)\<rparr>" "Some example_ucred"]
  have 6: "forward_syslog_iovec (example_env\<lparr>sendmsg_syslog := (\<lambda>i. Some 111)\<rparr>) example_server []
       [''<14>1 x''] (Some example_ucred) =
     Inr (example_server, [SendSyslog [''<14>1 x''] (Some example_ucred), LogDebug 111])"
    by (simp add: z errno_defs)
  from t [of "example_env\<lparr>sendmsg_syslog := (\<lambda>i. if i = 0 then Some EPERM else Some ENOENT)\<rparr>"
      "Some example_ucred"]
  have 7: "forward_syslog_iovec
       (example_env\<lparr>sendmsg_syslog := (\<lambda>i. if i = 0 then Some EPERM else Some ENOENT)\<rparr>)
       example_server [] [''<14>1 x''] (Some example_ucred) =
     Inr (example_server,
          [SendSyslog [''<14>1 x''] (Some example_ucred),
           SendSyslog [''<14>1 x''] (Some \<lparr>pid = 1, uid = 1000, gid = 100\<rparr>)])"
    by (simp add: z c [symmetric] example_env_def)
  from t [of "example_env\<lparr>sendmsg_syslog := (\<lambda>i. if i = 0 then Some ESRCH else Some 111)\<rparr>"
      "Some example_ucred"]
  have 8: "forward_syslog_iovec
       (example_env\<lparr>sendmsg_syslog := (\<lambda>i. if i = 0 then Some ESRCH else Some 111)\<rparr>)
       example_server [] [''<14>1 x''] (Some example_ucred) =
     Inr (example_server,
          [SendSyslog [''<14>1 x''] (Some example_ucred),
           SendSyslog [''<14>1 x''] (Some \<lparr>pid = 1, uid = 1000, gid = 100\<rparr>),
           LogDebug 111])"
    by (simp add: z c [symmetric] example_env_def errno_defs)
  from 1 2 3 4 5 6 7 8 show ?thesis
    by blast
qed

text \<open>
  C1 as stated has every failure of the second send other than \<open>EAGAIN\<close> dropped silently.
  When both sends fail with \<open>EPERM\<close> the source reaches its last statement with
  \<open>errno = EPERM\<close>, which is not \<open>ENOENT\<close>, and logs.
\<close>

theorem forward_retry_failure_counterexample:
  "forward_syslog_iovec (example_env\<lparr>sendmsg_syslog := (\<lambda>i. Some EPERM)\<rparr>) example_server []
       [''<14>1 x''] (Some example_ucred) =
     Inr (example_server,
          [SendSyslog [''<14>1 x''] (Some example_ucred),
           SendSyslog [''<14>1 x''] (Some \<lparr>pid = 1, uid = 1000, gid = 100\<rparr>),
           LogDebug EPERM])"
  by (simp add: forward_syslog_iovec_def Let_def log_unless_enoent_def errno_defs n_sendmsg_def
      example_env_def example_ucred_def)

section \<open>The loss warning\<close>

lemma warn_usec: "unat WARN_FORWARD_SYSLOG_MISSED_USEC = 30000000"
  by (simp add: WARN_FORWARD_SYSLOG_MISSED_USEC_def USEC_PER_SEC_def)

lemma warn_sum_no_overflow:
  fixes last :: usec_t
  assumes "unat last + 30000000 < 2 ^ 64"
  shows "unat (last + WARN_FORWARD_SYSLOG_MISSED_USEC) = unat last + 30000000"
proof -
  have "unat last + unat WARN_FORWARD_SYSLOG_MISSED_USEC < 2 ^ LENGTH(64)"
    using assms by (simp add: warn_usec)
  then have "unat (last + WARN_FORWARD_SYSLOG_MISSED_USEC) = unat last + unat WARN_FORWARD_SYSLOG_MISSED_USEC"
    by (rule unat_add_lem [THEN iffD1])
  then show ?thesis by (simp add: warn_usec)
qed

lemma warn_zero:
  "n_forward_syslog_missed s = 0 \<Longrightarrow> server_maybe_warn_forward_syslog_missed e s tr = (s, tr)"
  by (simp add: server_maybe_warn_forward_syslog_missed_def)

lemma warn_early:
  assumes "unat (last_warn_forward_syslog_missed s) + 30000000 < 2 ^ 64"
    and "unat (now_monotonic e) < unat (last_warn_forward_syslog_missed s) + 30000000"
  shows "server_maybe_warn_forward_syslog_missed e s tr = (s, tr)"
proof -
  have "now_monotonic e < last_warn_forward_syslog_missed s + WARN_FORWARD_SYSLOG_MISSED_USEC"
    using assms by (simp add: word_less_nat_alt warn_sum_no_overflow)
  then show ?thesis
    by (simp add: server_maybe_warn_forward_syslog_missed_def Let_def)
qed

lemma warn_fires:
  assumes "n_forward_syslog_missed s \<noteq> 0"
    and "unat (last_warn_forward_syslog_missed s) + 30000000 \<le> unat (now_monotonic e)"
  shows "server_maybe_warn_forward_syslog_missed e s tr =
           (s\<lparr>n_forward_syslog_missed := 0, last_warn_forward_syslog_missed := now_monotonic e\<rparr>,
            tr @ [DriverMessage (n_forward_syslog_missed s)])"
proof -
  have "unat (now_monotonic e) < 2 ^ 64"
    using unsigned_less [of "now_monotonic e"] by simp
  with assms(2) have "unat (last_warn_forward_syslog_missed s) + 30000000 < 2 ^ 64"
    by simp
  then have "unat (last_warn_forward_syslog_missed s + WARN_FORWARD_SYSLOG_MISSED_USEC)
      = unat (last_warn_forward_syslog_missed s) + 30000000"
    by (rule warn_sum_no_overflow)
  with assms(2) have "\<not> now_monotonic e < last_warn_forward_syslog_missed s + WARN_FORWARD_SYSLOG_MISSED_USEC"
    by (simp add: word_less_nat_alt)
  with assms(1) show ?thesis
    by (simp add: server_maybe_warn_forward_syslog_missed_def Let_def)
qed

lemma consecutive_eagain:
  assumes "\<forall>i. sendmsg_syslog e i = Some EAGAIN" and "iov \<noteq> []"
  shows "consecutive_sends e k s tr iov cred =
           Inr (s\<lparr>n_forward_syslog_missed := n_forward_syslog_missed s + of_nat k\<rparr>,
                tr @ replicate k (SendSyslog iov cred))"
proof (induction k arbitrary: s tr)
  case 0
  show ?case by simp
next
  case (Suc k)
  have "forward_syslog_iovec e s tr iov cred =
      Inr (s\<lparr>n_forward_syslog_missed := n_forward_syslog_missed s + 1\<rparr>, tr @ [SendSyslog iov cred])"
    using assms by (simp add: forward_syslog_iovec_def)
  then show ?case
    by (simp add: Suc.IH replicate_app_Cons_same add.assoc add.commute)
qed


lemma filter_driver_sends:
  "filter is_driver_message (tr @ replicate k (SendSyslog iov cred)) = filter is_driver_message tr"
  by (induction k) (simp_all add: replicate_append_same [symmetric] del: replicate_Suc)

text \<open>
  C4. \<open>server_maybe_warn_forward_syslog_missed\<close> does nothing when the loss counter is
  zero; it does nothing, and leaves the counter, when the clock is less than 30 seconds
  past the last warning (the sum of the last warning time and 30 seconds taken not to
  wrap around 64 bits); otherwise it emits one driver message carrying the counter,
  sets the counter to zero and stores the clock as the time of the last warning. \<open>k\<close>
  sends in a row that all fail with \<open>EAGAIN\<close>, starting from a counter of zero, leave the
  counter at \<open>k\<close> and emit no driver message; the throttle called with no time elapsed
  since the last warning does nothing, and called 30 seconds later or more emits one
  message carrying \<open>k\<close> and resets the counter.
\<close>

theorem maybe_warn_throttle:
  "(n_forward_syslog_missed s = 0 \<longrightarrow>
      server_maybe_warn_forward_syslog_missed e s tr = (s, tr))
   \<and> (unat (last_warn_forward_syslog_missed s) + 30000000 < 2 ^ 64
      \<and> unat (now_monotonic e) < unat (last_warn_forward_syslog_missed s) + 30000000 \<longrightarrow>
      server_maybe_warn_forward_syslog_missed e s tr = (s, tr))
   \<and> (n_forward_syslog_missed s \<noteq> 0
      \<and> unat (last_warn_forward_syslog_missed s) + 30000000 \<le> unat (now_monotonic e) \<longrightarrow>
      server_maybe_warn_forward_syslog_missed e s tr =
        (s\<lparr>n_forward_syslog_missed := 0, last_warn_forward_syslog_missed := now_monotonic e\<rparr>,
         tr @ [DriverMessage (n_forward_syslog_missed s)]))
   \<and> ((\<forall>i. sendmsg_syslog e i = Some EAGAIN) \<and> iov \<noteq> [] \<and> n_forward_syslog_missed s = 0
      \<and> k < 2 ^ 32 \<and> unat (last_warn_forward_syslog_missed s) + 30000000 < 2 ^ 64
      \<and> now_monotonic e = last_warn_forward_syslog_missed s \<longrightarrow>
      (\<exists>s' tr'. consecutive_sends e k s tr iov cred = Inr (s', tr')
         \<and> unat (n_forward_syslog_missed s') = k
         \<and> filter is_driver_message tr' = filter is_driver_message tr
         \<and> server_maybe_warn_forward_syslog_missed e s' tr' = (s', tr')
         \<and> (\<forall>e'. 0 < k
               \<and> unat (last_warn_forward_syslog_missed s) + 30000000 \<le> unat (now_monotonic e') \<longrightarrow>
               server_maybe_warn_forward_syslog_missed e' s' tr' =
                 (s'\<lparr>n_forward_syslog_missed := 0,
                     last_warn_forward_syslog_missed := now_monotonic e'\<rparr>,
                  tr' @ [DriverMessage (of_nat k)]))))"
proof (intro conjI impI)
  assume "n_forward_syslog_missed s = 0"
  then show "server_maybe_warn_forward_syslog_missed e s tr = (s, tr)"
    by (rule warn_zero)
next
  assume "unat (last_warn_forward_syslog_missed s) + 30000000 < 2 ^ 64
      \<and> unat (now_monotonic e) < unat (last_warn_forward_syslog_missed s) + 30000000"
  then show "server_maybe_warn_forward_syslog_missed e s tr = (s, tr)"
    by (intro warn_early) simp_all
next
  assume "n_forward_syslog_missed s \<noteq> 0
      \<and> unat (last_warn_forward_syslog_missed s) + 30000000 \<le> unat (now_monotonic e)"
  then show "server_maybe_warn_forward_syslog_missed e s tr =
        (s\<lparr>n_forward_syslog_missed := 0, last_warn_forward_syslog_missed := now_monotonic e\<rparr>,
         tr @ [DriverMessage (n_forward_syslog_missed s)])"
    by (intro warn_fires) simp_all
next
  assume a: "(\<forall>i. sendmsg_syslog e i = Some EAGAIN) \<and> iov \<noteq> [] \<and> n_forward_syslog_missed s = 0
      \<and> k < 2 ^ 32 \<and> unat (last_warn_forward_syslog_missed s) + 30000000 < 2 ^ 64
      \<and> now_monotonic e = last_warn_forward_syslog_missed s"
  define s' where "s' = s\<lparr>n_forward_syslog_missed := n_forward_syslog_missed s + of_nat k\<rparr>"
  define tr' where "tr' = tr @ replicate k (SendSyslog iov cred)"
  from a have run: "consecutive_sends e k s tr iov cred = Inr (s', tr')"
    unfolding s'_def tr'_def by (intro consecutive_eagain) simp_all
  from a have "n_forward_syslog_missed s' = of_nat k"
    by (simp add: s'_def)
  moreover from a have "unat (of_nat k :: 32 word) = k"
    by (simp add: unat_of_nat)
  ultimately have cnt: "unat (n_forward_syslog_missed s') = k"
    and cntw: "n_forward_syslog_missed s' = of_nat k"
    by simp_all
  have last: "last_warn_forward_syslog_missed s' = last_warn_forward_syslog_missed s"
    by (simp add: s'_def)
  have quiet: "filter is_driver_message tr' = filter is_driver_message tr"
    unfolding tr'_def by (rule filter_driver_sends)
  from a have early: "server_maybe_warn_forward_syslog_missed e s' tr' = (s', tr')"
    by (intro warn_early) (simp_all add: last)
  have late: "server_maybe_warn_forward_syslog_missed e' s' tr' =
                 (s'\<lparr>n_forward_syslog_missed := 0,
                     last_warn_forward_syslog_missed := now_monotonic e'\<rparr>,
                  tr' @ [DriverMessage (of_nat k)])"
    if "0 < k \<and> unat (last_warn_forward_syslog_missed s) + 30000000 \<le> unat (now_monotonic e')"
    for e'
  proof -
    from that cnt have "n_forward_syslog_missed s' \<noteq> 0"
      by (metis less_numeral_extra(3) unat_0)
    with that show ?thesis
      using warn_fires [of s' e' tr'] by (simp add: last cntw)
  qed
  from run cnt quiet early late
  show "\<exists>s' tr'. consecutive_sends e k s tr iov cred = Inr (s', tr')
         \<and> unat (n_forward_syslog_missed s') = k
         \<and> filter is_driver_message tr' = filter is_driver_message tr
         \<and> server_maybe_warn_forward_syslog_missed e s' tr' = (s', tr')
         \<and> (\<forall>e'. 0 < k
               \<and> unat (last_warn_forward_syslog_missed s) + 30000000 \<le> unat (now_monotonic e') \<longrightarrow>
               server_maybe_warn_forward_syslog_missed e' s' tr' =
                 (s'\<lparr>n_forward_syslog_missed := 0,
                     last_warn_forward_syslog_missed := now_monotonic e'\<rparr>,
                  tr' @ [DriverMessage (of_nat k)]))"
    by blast
qed


text \<open>
  Three sends failing with \<open>EAGAIN\<close>: the counter is 3, the throttle is silent at time 0
  and fires once, carrying 3, at 30 seconds.
\<close>

theorem maybe_warn_throttle_witness:
  "server_maybe_warn_forward_syslog_missed example_env example_server [] = (example_server, [])
   \<and> consecutive_sends (example_env\<lparr>sendmsg_syslog := (\<lambda>i. Some EAGAIN), now_monotonic := 0\<rparr>) 3
       example_server [] [''<14>1 x''] None =
     Inr (example_server\<lparr>n_forward_syslog_missed := 3\<rparr>,
          [SendSyslog [''<14>1 x''] None, SendSyslog [''<14>1 x''] None,
           SendSyslog [''<14>1 x''] None])
   \<and> server_maybe_warn_forward_syslog_missed
       (example_env\<lparr>sendmsg_syslog := (\<lambda>i. Some EAGAIN), now_monotonic := 0\<rparr>)
       (example_server\<lparr>n_forward_syslog_missed := 3\<rparr>)
       [SendSyslog [''<14>1 x''] None, SendSyslog [''<14>1 x''] None,
        SendSyslog [''<14>1 x''] None] =
     (example_server\<lparr>n_forward_syslog_missed := 3\<rparr>,
      [SendSyslog [''<14>1 x''] None, SendSyslog [''<14>1 x''] None,
       SendSyslog [''<14>1 x''] None])
   \<and> server_maybe_warn_forward_syslog_missed (example_env\<lparr>now_monotonic := 30000000\<rparr>)
       (example_server\<lparr>n_forward_syslog_missed := 3\<rparr>)
       [SendSyslog [''<14>1 x''] None, SendSyslog [''<14>1 x''] None,
        SendSyslog [''<14>1 x''] None] =
     (example_server\<lparr>n_forward_syslog_missed := 0, last_warn_forward_syslog_missed := 30000000\<rparr>,
      [SendSyslog [''<14>1 x''] None, SendSyslog [''<14>1 x''] None,
       SendSyslog [''<14>1 x''] None, DriverMessage 3])"
proof -
  let ?e = "example_env\<lparr>sendmsg_syslog := (\<lambda>i. Some EAGAIN), now_monotonic := 0\<rparr>"
  let ?l = "example_env\<lparr>now_monotonic := 30000000\<rparr>"
  let ?s = "example_server\<lparr>n_forward_syslog_missed := 3\<rparr>"
  let ?tr = "[SendSyslog [''<14>1 x''] None, SendSyslog [''<14>1 x''] None,
              SendSyslog [''<14>1 x''] None]"
  have s0: "n_forward_syslog_missed example_server = 0"
    "last_warn_forward_syslog_missed example_server = 0"
    by (simp_all add: example_server_def)
  from maybe_warn_throttle [where s = example_server and e = example_env and tr = "[]"] s0
  have 1: "server_maybe_warn_forward_syslog_missed example_env example_server [] = (example_server, [])"
    by simp
  from maybe_warn_throttle [where s = example_server and e = ?e and tr = "[]" and k = 3
      and iov = "[''<14>1 x'']" and cred = None] s0
  obtain s' tr' where run: "consecutive_sends ?e 3 example_server [] [''<14>1 x''] None = Inr (s', tr')"
    and cnt: "unat (n_forward_syslog_missed s') = 3"
    by auto
  have "consecutive_sends ?e 3 example_server [] [''<14>1 x''] None = Inr (?s, ?tr)"
    by (simp add: eval_nat_numeral forward_syslog_iovec_def s0)
  with run have 2: "consecutive_sends ?e 3 example_server [] [''<14>1 x''] None = Inr (?s, ?tr)"
    by simp
  from maybe_warn_throttle [where s = ?s and e = ?e and tr = ?tr] s0
  have 3: "server_maybe_warn_forward_syslog_missed ?e ?s ?tr = (?s, ?tr)"
    by simp
  from maybe_warn_throttle [where s = ?s and e = ?l and tr = ?tr] s0
  have 4: "server_maybe_warn_forward_syslog_missed ?l ?s ?tr =
     (example_server\<lparr>n_forward_syslog_missed := 0, last_warn_forward_syslog_missed := 30000000\<rparr>,
      ?tr @ [DriverMessage 3])"
    by simp
  from 1 2 3 4 show ?thesis
    by simp
qed

section \<open>The remote forwarder without a usable target\<close>

lemma remote_no_target:
  assumes "remote_syslog_fd s \<le> 0" and "sin_addr (remote_syslog_dest s) = INADDR_NONE"
  shows "forward_remote_syslog_iovec e s tr iov = (s, tr)"
  using assms by (simp add: forward_remote_syslog_iovec_def maybe_open_remote_syslog_def)

lemma remote_not_inet:
  assumes "remote_syslog_fd s \<le> 0" and "sin_addr (remote_syslog_dest s) \<noteq> INADDR_NONE"
    and "sin_family (remote_syslog_dest s) \<noteq> AF_INET"
  shows "forward_remote_syslog_iovec e s tr iov = (s, tr @ not_inet_warnings)"
  using assms
  by (simp add: forward_remote_syslog_iovec_def maybe_open_remote_syslog_def Let_def
      not_inet_warnings_def)

lemma remote_no_target_always:
  assumes "remote_syslog_fd s \<le> 0" and "sin_addr (remote_syslog_dest s) = INADDR_NONE"
  shows "consecutive_remote_sends e k s tr iov = (s, tr)"
  by (induction k) (simp_all add: remote_no_target [OF assms])

lemma remote_not_inet_always:
  assumes "remote_syslog_fd s \<le> 0" and "sin_addr (remote_syslog_dest s) \<noteq> INADDR_NONE"
    and "sin_family (remote_syslog_dest s) \<noteq> AF_INET"
  shows "consecutive_remote_sends e k s tr iov = (s, tr @ concat (replicate k not_inet_warnings))"
proof (induction k arbitrary: tr)
  case 0
  show ?case by simp
next
  case (Suc k)
  show ?case
    by (simp add: remote_not_inet [OF assms] Suc.IH)
qed

text \<open>
  C8, amended. While no remote socket is open (\<open>remote_syslog_fd \<le> 0\<close>): when no target is
  configured (the address is \<open>INADDR_NONE\<close>) a call of \<open>forward_remote_syslog_iovec\<close> changes
  nothing and logs nothing, and so does any number of calls in a row; when the target is
  not \<open>AF_INET\<close> a call sends nothing, opens no socket and leaves the server state as it
  was, and logs the two warnings, so that \<open>k\<close> calls log them \<open>k\<close> times.
\<close>

theorem remote_forward_without_target:
  "(remote_syslog_fd s \<le> 0 \<and> sin_addr (remote_syslog_dest s) = INADDR_NONE \<longrightarrow>
      forward_remote_syslog_iovec e s tr iov = (s, tr)
      \<and> consecutive_remote_sends e k s tr iov = (s, tr))
   \<and> (remote_syslog_fd s \<le> 0 \<and> sin_addr (remote_syslog_dest s) \<noteq> INADDR_NONE
      \<and> sin_family (remote_syslog_dest s) \<noteq> AF_INET \<longrightarrow>
      forward_remote_syslog_iovec e s tr iov = (s, tr @ not_inet_warnings)
      \<and> consecutive_remote_sends e k s tr iov = (s, tr @ concat (replicate k not_inet_warnings)))"
  using remote_no_target [of s e tr iov] remote_no_target_always [of s e k tr iov]
    remote_not_inet [of s e tr iov] remote_not_inet_always [of s e k tr iov]
  by blast

text \<open>
  Three calls without a target leave the trace empty; one call with an \<open>AF_INET6\<close> target
  logs the two warnings.
\<close>

theorem remote_forward_without_target_witness:
  "consecutive_remote_sends example_env 3 example_server_no_target [] [''<14>1 x''] =
     (example_server_no_target, [])
   \<and> forward_remote_syslog_iovec example_env example_server_inet6 [] [''<14>1 x''] =
     (example_server_inet6,
      [LogWarning ''remote syslog forwarding target configured: %s'',
       LogWarning ''non AF_INET target for remote syslog forwarding configured. ignoring.''])"
proof -
  have a: "remote_syslog_fd example_server_no_target \<le> 0
      \<and> sin_addr (remote_syslog_dest example_server_no_target) = INADDR_NONE"
    by (simp add: example_server_no_target_def example_server_def INADDR_NONE_def)
  have b: "remote_syslog_fd example_server_inet6 \<le> 0
      \<and> sin_addr (remote_syslog_dest example_server_inet6) \<noteq> INADDR_NONE
      \<and> sin_family (remote_syslog_dest example_server_inet6) \<noteq> AF_INET"
    by (simp add: example_server_inet6_def example_server_def INADDR_NONE_def AF_INET_def)
  from a remote_forward_without_target [of example_server_no_target example_env "[]"
      "[''<14>1 x'']" 3]
  have 1: "consecutive_remote_sends example_env 3 example_server_no_target [] [''<14>1 x''] =
     (example_server_no_target, [])"
    by blast
  from b remote_forward_without_target [of example_server_inet6 example_env "[]"
      "[''<14>1 x'']" 3]
  have "forward_remote_syslog_iovec example_env example_server_inet6 [] [''<14>1 x''] =
     (example_server_inet6, [] @ not_inet_warnings)"
    by blast
  with 1 show ?thesis
    by (simp add: not_inet_warnings_def)
qed

text \<open>
  C8 as stated has the condition logged once, at setup time. Two messages to a target
  that is not \<open>AF_INET\<close> log the warning twice; without a target nothing is logged at all.
\<close>

theorem remote_warning_per_message_counterexample:
  "consecutive_remote_sends example_env 2 example_server_inet6 [] [''<14>1 x''] =
     (example_server_inet6,
      [LogWarning ''remote syslog forwarding target configured: %s'',
       LogWarning ''non AF_INET target for remote syslog forwarding configured. ignoring.'',
       LogWarning ''remote syslog forwarding target configured: %s'',
       LogWarning ''non AF_INET target for remote syslog forwarding configured. ignoring.''])
   \<and> consecutive_remote_sends example_env 2 example_server_no_target [] [''<14>1 x''] =
     (example_server_no_target, [])"
proof -
  have a: "remote_syslog_fd example_server_no_target \<le> 0"
    "sin_addr (remote_syslog_dest example_server_no_target) = INADDR_NONE"
    by (simp_all add: example_server_no_target_def example_server_def INADDR_NONE_def)
  have b: "remote_syslog_fd example_server_inet6 \<le> 0"
    "sin_addr (remote_syslog_dest example_server_inet6) \<noteq> INADDR_NONE"
    "sin_family (remote_syslog_dest example_server_inet6) \<noteq> AF_INET"
    by (simp_all add: example_server_inet6_def example_server_def INADDR_NONE_def AF_INET_def)
  have none: "forward_remote_syslog_iovec example_env example_server_no_target tr iov =
      (example_server_no_target, tr)" for tr iov
    using a by (simp add: forward_remote_syslog_iovec_def maybe_open_remote_syslog_def)
  have inet6: "forward_remote_syslog_iovec example_env example_server_inet6 tr iov =
      (example_server_inet6,
       tr @ [LogWarning ''remote syslog forwarding target configured: %s'',
             LogWarning ''non AF_INET target for remote syslog forwarding configured. ignoring.''])"
    for tr iov
    using b by (simp add: forward_remote_syslog_iovec_def maybe_open_remote_syslog_def Let_def)
  show ?thesis
    by (simp add: numeral_2_eq_2 none inet6)
qed

section \<open>The level filter\<close>

lemma level_filter_forward:
  assumes "0 \<le> pri" and "pri \<le> 999" and "LOG_PRI pri > max_level_syslog s"
  shows "server_forward_syslog e s tr pri ident msg cred tv = Inr (s, tr)"
  using assms by (simp add: server_forward_syslog_def)

lemma level_filter_raw:
  assumes "LOG_PRI pri > max_level_syslog s"
  shows "forward_syslog_raw e s tr pri buffer cred = Inr (s, tr)"
  using assms by (simp add: forward_syslog_raw_def)

text \<open>
  C10. A call of \<open>server_forward_syslog\<close> (with a priority in 0..999, as its assertions
  demand) whose severity \<open>LOG_PRI\<close>, the low 3 bits of the priority, is above
  \<open>max_level_syslog\<close> returns the server state and the trace as they were: no message is
  built, nothing is sent to either sink, the loss counter and the socket handles are
  untouched. \<open>forward_syslog_raw\<close> has the same filter.
\<close>

theorem level_filter_returns_at_once:
  "(0 \<le> pri \<and> pri \<le> 999 \<and> LOG_PRI pri > max_level_syslog s \<longrightarrow>
      server_forward_syslog e s tr pri ident msg cred tv = Inr (s, tr))
   \<and> (LOG_PRI pri > max_level_syslog s \<longrightarrow>
      forward_syslog_raw e s tr pri buffer cred = Inr (s, tr))
   \<and> LOG_PRI pri = pri mod 8"
  using level_filter_forward [of pri s e tr ident msg cred tv]
    level_filter_raw [of s pri e tr buffer cred]
  by (simp add: LOG_PRI_def LOG_PRIMASK_def and7)

text \<open>Priority 15 (severity 7) with a maximum level of 6.\<close>

theorem level_filter_returns_at_once_witness:
  "LOG_PRI 15 = 7
   \<and> server_forward_syslog example_env (example_server\<lparr>max_level_syslog := 6\<rparr>) [] 15
       (Some ''su'') ''hello'' None None =
     Inr (example_server\<lparr>max_level_syslog := 6\<rparr>, [])
   \<and> forward_syslog_raw example_env (example_server\<lparr>max_level_syslog := 6\<rparr>) [] 15
       ''<15>hello'' None =
     Inr (example_server\<lparr>max_level_syslog := 6\<rparr>, [])"
proof -
  note t = level_filter_returns_at_once [where pri = 15
      and s = "example_server\<lparr>max_level_syslog := 6\<rparr>" and e = example_env and tr = "[]"
      and ident = "Some ''su''" and msg = "''hello''" and cred = None and tv = None
      and buffer = "''<15>hello''"]
  from t have p: "LOG_PRI 15 = 7"
    by simp
  with t show ?thesis
    by simp
qed

section \<open>Timestamps that cannot be converted or rendered\<close>






























end
